theory Spec2Isabelle
  imports Main "HOL-Library.Sublist" "HOL-Library.AList"
begin

section \<open>JavaScript strings\<close>

text \<open>
  Strings are lists of characters. The string methods the script calls are written out for
  the characters below code point 256: \<open>trim\<close> strips the white space and line terminators of
  that range, \<open>toLowerCase\<close> lowers A-Z and the upper-case letters of Latin-1.
\<close>

definition apos :: string where
  "apos = [CHR 0x27]"

definition dquote :: string where
  "dquote = [CHR 0x22]"

definition newline :: string where
  "newline = [CHR 0x0A]"

definition isWhiteSpace :: "char \<Rightarrow> bool" where
  "isWhiteSpace c =
     (c \<in> {CHR 0x09, CHR 0x0A, CHR 0x0B, CHR 0x0C, CHR 0x0D, CHR 0x20, CHR 0xA0})"

definition js_trim :: "string \<Rightarrow> string" where
  "js_trim s = rev (dropWhile isWhiteSpace (rev (dropWhile isWhiteSpace s)))"

definition upperChars :: string where
  "upperChars = ''ABCDEFGHIJKLMNOPQRSTUVWXYZ'' @
     [CHR 0xC0, CHR 0xC1, CHR 0xC2, CHR 0xC3, CHR 0xC4, CHR 0xC5, CHR 0xC6, CHR 0xC7,
      CHR 0xC8, CHR 0xC9, CHR 0xCA, CHR 0xCB, CHR 0xCC, CHR 0xCD, CHR 0xCE, CHR 0xCF,
      CHR 0xD0, CHR 0xD1, CHR 0xD2, CHR 0xD3, CHR 0xD4, CHR 0xD5, CHR 0xD6, CHR 0xD8,
      CHR 0xD9, CHR 0xDA, CHR 0xDB, CHR 0xDC, CHR 0xDD, CHR 0xDE]"

definition lowerChars :: string where
  "lowerChars = ''abcdefghijklmnopqrstuvwxyz'' @
     [CHR 0xE0, CHR 0xE1, CHR 0xE2, CHR 0xE3, CHR 0xE4, CHR 0xE5, CHR 0xE6, CHR 0xE7,
      CHR 0xE8, CHR 0xE9, CHR 0xEA, CHR 0xEB, CHR 0xEC, CHR 0xED, CHR 0xEE, CHR 0xEF,
      CHR 0xF0, CHR 0xF1, CHR 0xF2, CHR 0xF3, CHR 0xF4, CHR 0xF5, CHR 0xF6, CHR 0xF8,
      CHR 0xF9, CHR 0xFA, CHR 0xFB, CHR 0xFC, CHR 0xFD, CHR 0xFE]"

definition lowerChar :: "char \<Rightarrow> char" where
  "lowerChar c = (case map_of (zip upperChars lowerChars) c of Some d \<Rightarrow> d | None \<Rightarrow> c)"

definition js_toLowerCase :: "string \<Rightarrow> string" where
  "js_toLowerCase s = map lowerChar s"

text \<open>\<open>hay.includes(needle)\<close>: the needle occurs as a contiguous run somewhere in \<open>hay\<close>.\<close>

fun js_includes :: "string \<Rightarrow> string \<Rightarrow> bool" where
  "js_includes [] needle = (needle = [])"
| "js_includes (c # cs) needle = (prefix needle (c # cs) \<or> js_includes cs needle)"

definition js_startsWith :: "string \<Rightarrow> string \<Rightarrow> bool" where
  "js_startsWith s p = prefix p s"

definition js_endsWith :: "string \<Rightarrow> string \<Rightarrow> bool" where
  "js_endsWith s p = suffix p s"

text \<open>\<open>s.split(sep)\<close> for a one-character separator; the result is never empty.\<close>

fun js_split :: "char \<Rightarrow> string \<Rightarrow> string list" where
  "js_split sep [] = [[]]"
| "js_split sep (c # cs) =
     (if c = sep then [] # js_split sep cs
      else (case js_split sep cs of [] \<Rightarrow> [[c]] | p # ps \<Rightarrow> (c # p) # ps))"

fun js_join :: "string \<Rightarrow> string list \<Rightarrow> string" where
  "js_join sep [] = []"
| "js_join sep [x] = x"
| "js_join sep (x # y # ys) = x @ sep @ js_join sep (y # ys)"

section \<open>The command runner\<close>

text \<open>
  The script talks to the outside through \<open>execSync\<close>, the existence test of the \<open>.git\<close>
  directory, the clock and the operator's answers on standard input. These are the fields of
  an environment over a world \<open>'w\<close> that commands may change; \<open>question\<close> gives the line the
  operator types at each prompt. A run keeps the world and the list of what it did: every
  command with what the caller got back, every question with the trimmed answer, and the
  console lines of the sync report (other console output is not recorded).
\<close>

datatype error = Error string

datatype event =
    Cmd string "error + string"
  | CmdStdIO string "error + unit"
  | Ask string string
  | Console string

record 'w env =
  execSync :: "string \<Rightarrow> 'w \<Rightarrow> (error + string) \<times> 'w"
  gitDirExists :: "'w \<Rightarrow> bool"
  question :: "string \<Rightarrow> string"
  timestamp :: string

record 'w st =
  world :: 'w
  trace :: "event list"

definition console :: "string \<Rightarrow> 'w st \<Rightarrow> 'w st" where
  "console line s = s\<lparr>trace := trace s @ [Console line]\<rparr>"

definition askQuestion :: "'w env \<Rightarrow> string \<Rightarrow> 'w st \<Rightarrow> string \<times> 'w st" where
  "askQuestion E query s =
     (let ans = js_trim (question E query)
      in (ans, s\<lparr>trace := trace s @ [Ask query ans]\<rparr>))"

definition runCommand :: "'w env \<Rightarrow> string \<Rightarrow> 'w st \<Rightarrow> (error + string) \<times> 'w st" where
  "runCommand E command s =
     (case execSync E command (world s) of
        (Inl e, w) \<Rightarrow> (Inl e, \<lparr>world = w, trace = trace s @ [Cmd command (Inl e)]\<rparr>)
      | (Inr out, w) \<Rightarrow>
          (Inr (js_trim out), \<lparr>world = w, trace = trace s @ [Cmd command (Inr (js_trim out))]\<rparr>))"

definition runCommandStdIO :: "'w env \<Rightarrow> string \<Rightarrow> 'w st \<Rightarrow> (error + unit) \<times> 'w st" where
  "runCommandStdIO E command s =
     (case execSync E command (world s) of
        (Inl e, w) \<Rightarrow> (Inl e, \<lparr>world = w, trace = trace s @ [CmdStdIO command (Inl e)]\<rparr>)
      | (Inr out, w) \<Rightarrow> (Inr (), \<lparr>world = w, trace = trace s @ [CmdStdIO command (Inr ())]\<rparr>))"

text \<open>Reading a trace.\<close>

fun cmd_failed :: "event \<Rightarrow> bool" where
  "cmd_failed (Cmd c (Inl e)) = True"
| "cmd_failed (CmdStdIO c (Inl e)) = True"
| "cmd_failed ev = False"

fun commands :: "event list \<Rightarrow> string list" where
  "commands [] = []"
| "commands (Cmd c r # evs) = c # commands evs"
| "commands (CmdStdIO c r # evs) = c # commands evs"
| "commands (ev # evs) = commands evs"

fun cmd_output :: "string \<Rightarrow> event list \<Rightarrow> string option" where
  "cmd_output c [] = None"
| "cmd_output c (Cmd c' r # evs) =
     (if c' = c then (case r of Inl e \<Rightarrow> None | Inr out \<Rightarrow> Some out) else cmd_output c evs)"
| "cmd_output c (ev # evs) = cmd_output c evs"

text \<open>What a run added to the trace: the events of \<open>s'\<close> after those of \<open>s\<close>.\<close>

definition since :: "'w st \<Rightarrow> 'w st \<Rightarrow> event list" where
  "since s s' = drop (length (trace s)) (trace s')"

section \<open>Branch and sync status\<close>

definition getCurrentGitBranch :: "'w env \<Rightarrow> 'w st \<Rightarrow> (error + string) \<times> 'w st" where
  "getCurrentGitBranch E s =
     (case runCommand E ''git rev-parse --abbrev-ref HEAD'' s of
        (Inl e, s1) \<Rightarrow> (Inl e, s1)
      | (Inr branch, s1) \<Rightarrow>
          (case (if branch = [] \<or> js_trim branch = ''HEAD''
                 then runCommand E ''git branch --show-current'' s1
                 else (Inr branch, s1)) of
             (Inl e, s2) \<Rightarrow> (Inl e, s2)
           | (Inr branch2, s2) \<Rightarrow>
               if branch2 = [] \<or> js_trim branch2 = []
               then (Inl (Error ''Could not determine current branch or in detached HEAD state.''), s2)
               else (Inr (js_trim branch2), s2)))"

record status =
  hasChanges :: bool
  isRepo :: bool
  sync :: string
  localHash :: string
  remoteHash :: string
  baseHash :: string

definition getGitStatus :: "'w env \<Rightarrow> string \<Rightarrow> 'w st \<Rightarrow> status \<times> 'w st" where
  "getGitStatus E branchName s =
     (let status0 = \<lparr>hasChanges = False, isRepo = gitDirExists E (world s), sync = ''unknown'',
                      localHash = [], remoteHash = [], baseHash = []\<rparr>
      in if \<not> isRepo status0 then (status0, s)
      else
        (case runCommand E ''git status --porcelain'' s of
           (Inl e, s1) \<Rightarrow> (status0\<lparr>sync := ''error''\<rparr>, s1)
         | (Inr statusOutput, s1) \<Rightarrow>
        let status1 = status0\<lparr>hasChanges := (length statusOutput > 0)\<rparr> in
        (case runCommand E ''git remote update'' s1 of
           (Inl e, s2) \<Rightarrow> (status1\<lparr>sync := ''error''\<rparr>, s2)
         | (Inr updateOutput, s2) \<Rightarrow>
        (case runCommand E ''git rev-parse HEAD'' s2 of
           (Inl e, s3) \<Rightarrow> (status1\<lparr>sync := ''error''\<rparr>, s3)
         | (Inr local, s3) \<Rightarrow>
        let status2 = status1\<lparr>localHash := local\<rparr> in
        (case runCommand E (''git ls-remote --heads origin '' @ branchName) s3 of
           (Inl e, s4) \<Rightarrow> (status2\<lparr>sync := ''error''\<rparr>, s4)
         | (Inr remoteBranchExistsResult, s4) \<Rightarrow>
        if remoteBranchExistsResult = [] then (status2\<lparr>sync := ''no_remote''\<rparr>, s4)
        else
        (case runCommand E (''git rev-parse origin/'' @ branchName) s4 of
           (Inl e, s5) \<Rightarrow> (status2\<lparr>sync := ''error''\<rparr>, s5)
         | (Inr remote, s5) \<Rightarrow>
        let status3 = status2\<lparr>remoteHash := remote\<rparr> in
        (case runCommand E (''git merge-base HEAD origin/'' @ branchName) s5 of
           (Inl e, s6) \<Rightarrow> (status3\<lparr>sync := ''error''\<rparr>, s6)
         | (Inr base, s6) \<Rightarrow>
        let status4 = status3\<lparr>baseHash := base\<rparr> in
        (if localHash status4 = remoteHash status4 then (status4\<lparr>sync := ''uptodate''\<rparr>, s6)
         else if localHash status4 = baseHash status4 then (status4\<lparr>sync := ''behind''\<rparr>, s6)
         else if remoteHash status4 = baseHash status4 then (status4\<lparr>sync := ''ahead''\<rparr>, s6)
         else (status4\<lparr>sync := ''diverged''\<rparr>, s6)))))))))"

text \<open>
  \<open>displaySyncStatus\<close> prints the report and, for \<open>ahead\<close> and \<open>no_remote\<close>, pushes. A failed
  push is caught and logged.
\<close>

definition displaySyncStatus :: "'w env \<Rightarrow> status \<Rightarrow> string \<Rightarrow> string \<Rightarrow> 'w st \<Rightarrow> 'w st" where
  "displaySyncStatus E gitStatus branchName operationType s =
     (let remoteBranch = ''origin/'' @ branchName;
          s0 = console (operationType @ '': Sync status for branch '' @ apos @ branchName @ apos
                          @ '' is '' @ sync gitStatus @ ''.'') s
      in if sync gitStatus = ''uptodate'' then
           console (''OK: Branch '' @ apos @ branchName @ apos @ '' is up-to-date with ''
                      @ remoteBranch @ ''.'') s0
         else if sync gitStatus = ''behind'' then
           console (''Warning: Local branch '' @ apos @ branchName @ apos @ '' is behind ''
                      @ remoteBranch @ ''. Consider pulling changes.'') s0
         else if sync gitStatus = ''ahead'' then
           (let s1 = console (''Local branch '' @ apos @ branchName @ apos @ '' is ahead of ''
                                @ remoteBranch @ ''. Pushing existing commits...'') s0
            in case runCommandStdIO E (''git push origin '' @ branchName) s1 of
                 (Inr u, s2) \<Rightarrow>
                   console (''Successfully pushed '' @ apos @ branchName @ apos @ '' to ''
                              @ remoteBranch @ ''.'') s2
               | (Inl e, s2) \<Rightarrow>
                   console (''Error pushing '' @ apos @ branchName @ apos
                              @ ''. Check Git output for details.'') s2)
         else if sync gitStatus = ''diverged'' then
           console (''Warning: Local branch '' @ apos @ branchName @ apos @ '' has diverged from ''
                      @ remoteBranch @ ''. A merge or rebase is required.'') s0
         else if sync gitStatus = ''no_remote'' then
           (let s1 = console (''Remote branch '' @ remoteBranch @ '' not found. Pushing '' @ apos
                                @ branchName @ apos @ '' as a new remote branch...'') s0
            in case runCommandStdIO E (''git push -u origin '' @ branchName) s1 of
                 (Inr u, s2) \<Rightarrow>
                   console (''Successfully pushed '' @ apos @ branchName @ apos
                              @ '' to new remote branch '' @ remoteBranch @ ''.'') s2
               | (Inl e, s2) \<Rightarrow>
                   console (''Error pushing new branch '' @ apos @ branchName @ apos
                              @ ''. Check Git output for details.'') s2)
         else
           console (''Could not reliably determine the sync status for '' @ apos @ branchName
                      @ apos @ '' with '' @ remoteBranch @ ''.'') s0)"

section \<open>Backup operations\<close>

record config =
  projectName :: string
  githubUsername :: string
  backupBranch :: string
  autoIgnoreFiles :: "string list"
  maxBackupAttempts :: int
  createdAt :: string
  version :: string

text \<open>\<open>commitMessage.replace(/"/g, '\\"')\<close>: a backslash before every double quote.\<close>

definition escapeQuotes :: "string \<Rightarrow> string" where
  "escapeQuotes m = concat (map (\<lambda>c. if c = CHR 0x22 then [CHR 0x5C, CHR 0x22] else [c]) m)"

definition commitAndPush :: "'w env \<Rightarrow> string \<Rightarrow> string \<Rightarrow> string \<Rightarrow> 'w st \<Rightarrow> bool \<times> 'w st" where
  "commitAndPush E commitMessage branchName project s =
     (case runCommandStdIO E ''git add -A'' s of
        (Inl e, s1) \<Rightarrow> (False, s1)
      | (Inr u, s1) \<Rightarrow>
     (case runCommandStdIO E (''git commit -m '' @ dquote @ escapeQuotes commitMessage @ dquote) s1 of
        (Inl e, s2) \<Rightarrow> (False, s2)
      | (Inr u, s2) \<Rightarrow>
     (case runCommandStdIO E (''git push origin '' @ branchName) s2 of
        (Inl e, s3) \<Rightarrow> (False, s3)
      | (Inr u, s3) \<Rightarrow> (True, s3))))"

text \<open>
  Every operation starts with \<open>readConfig()\<close>; its result is the argument \<open>cfg\<close>
  (\<open>None\<close> for \<open>null\<close>). An empty string is falsy, as in the source's \<open>!config.projectName\<close>.
\<close>

definition opQuickBackup :: "'w env \<Rightarrow> config option \<Rightarrow> 'w st \<Rightarrow> 'w st" where
  "opQuickBackup E cfg s =
     (case cfg of None \<Rightarrow> s
      | Some c \<Rightarrow>
     if projectName c = [] then s else
     (case getCurrentGitBranch E s of
        (Inl e, s1) \<Rightarrow> s1
      | (Inr currentBranch, s1) \<Rightarrow>
     (case getGitStatus E currentBranch s1 of (gitStatus, s2) \<Rightarrow>
     if \<not> isRepo gitStatus then s2
     else if \<not> hasChanges gitStatus then
       displaySyncStatus E gitStatus currentBranch ''QuickBackup'' s2
     else
       snd (commitAndPush E (''Quick backup: '' @ timestamp E) currentBranch (projectName c) s2))))"

definition emptyCommitPrompt :: "string \<Rightarrow> string" where
  "emptyCommitPrompt currentBranch =
     ''No local changes detected on branch '' @ apos @ currentBranch @ apos
       @ ''. Do you want to create an empty commit anyway? (Y/N): ''"

definition opCommitWithMessage :: "'w env \<Rightarrow> config option \<Rightarrow> string \<Rightarrow> 'w st \<Rightarrow> 'w st" where
  "opCommitWithMessage E cfg customMessage s =
     (case cfg of None \<Rightarrow> s
      | Some c \<Rightarrow>
     if projectName c = [] then s else
     (case getCurrentGitBranch E s of
        (Inl e, s1) \<Rightarrow> s1
      | (Inr currentBranch, s1) \<Rightarrow>
     (case (if customMessage = [] \<or> js_trim customMessage = []
            then askQuestion E ''Please enter your commit message: '' s1
            else (customMessage, s1)) of (finalCommitMessage, s2) \<Rightarrow>
     if finalCommitMessage = [] \<or> js_trim finalCommitMessage = [] then s2 else
     (case getGitStatus E currentBranch s2 of (gitStatus, s3) \<Rightarrow>
     if \<not> isRepo gitStatus then s3
     else if \<not> hasChanges gitStatus then
       (case askQuestion E (emptyCommitPrompt currentBranch) s3 of (commitEmpty, s4) \<Rightarrow>
        if \<not> js_startsWith (js_toLowerCase commitEmpty) ''y'' then
          displaySyncStatus E gitStatus currentBranch ''CommitWithMessage'' s4
        else snd (commitAndPush E finalCommitMessage currentBranch (projectName c) s4))
     else snd (commitAndPush E finalCommitMessage currentBranch (projectName c) s3)))))"

definition checkRemoteSync :: "'w env \<Rightarrow> 'w st \<Rightarrow> 'w st" where
  "checkRemoteSync E s =
     (case getCurrentGitBranch E s of
        (Inl e, s1) \<Rightarrow> s1
      | (Inr currentBranch, s1) \<Rightarrow>
     (case getGitStatus E currentBranch s1 of (gitStatus, s2) \<Rightarrow>
     if \<not> isRepo gitStatus then s2
     else displaySyncStatus E gitStatus currentBranch ''CheckRemoteSync'' s2))"

section \<open>History rewriting\<close>

text \<open>
  A commit record as the log line gives it. \<open>commitLine.split('|')\<close> is destructured into four
  names; a name past the end of the array is \<open>undefined\<close>, here \<open>None\<close>.
\<close>

record commit =
  hash :: "string option"
  authorName :: "string option"
  authorEmail :: "string option"
  subject :: "string option"

definition nth_opt :: "'a list \<Rightarrow> nat \<Rightarrow> 'a option" where
  "nth_opt xs i = (if i < length xs then Some (xs ! i) else None)"

definition parseCommit :: "string \<Rightarrow> commit" where
  "parseCommit commitLine =
     (let fields = js_split (CHR ''|'') commitLine
      in \<lparr>hash = nth_opt fields 0, authorName = nth_opt fields 1,
          authorEmail = nth_opt fields 2, subject = nth_opt fields 3\<rparr>)"

text \<open>
  The author test. \<open>authorEmail.includes\<close> on \<open>undefined\<close> throws a TypeError, unless the
  name already matched (\<open>||\<close> stops at the first true operand).
\<close>

definition isCurrentUser :: "string \<Rightarrow> commit \<Rightarrow> error + bool" where
  "isCurrentUser currentUser c =
     (if authorName c = Some currentUser then Inr True
      else (case authorEmail c of
              None \<Rightarrow> Inl (Error ''Cannot read properties of undefined (reading includes)'')
            | Some email \<Rightarrow>
                Inr (js_includes email currentUser
                     \<or> email = currentUser @ ''@users.noreply.github.com'')))"

text \<open>The \<open>forEach\<close> over the log lines, pushing each record onto one of the two arrays.\<close>

fun partitionCommits ::
  "string \<Rightarrow> string list \<Rightarrow> commit list \<Rightarrow> commit list \<Rightarrow> error + (commit list \<times> commit list)"
where
  "partitionCommits currentUser [] currentUserCommits oldUserCommits =
     Inr (currentUserCommits, oldUserCommits)"
| "partitionCommits currentUser (commitLine # rest) currentUserCommits oldUserCommits =
     (case isCurrentUser currentUser (parseCommit commitLine) of
        Inl e \<Rightarrow> Inl e
      | Inr True \<Rightarrow>
          partitionCommits currentUser rest
            (currentUserCommits @ [parseCommit commitLine]) oldUserCommits
      | Inr False \<Rightarrow>
          partitionCommits currentUser rest
            currentUserCommits (oldUserCommits @ [parseCommit commitLine]))"

definition logCommand :: string where
  "logCommand = ''git log --pretty=format:'' @ dquote @ ''%H|%an|%ae|%s'' @ dquote @ '' --all''"

definition confirmCleanPrompt :: string where
  "confirmCleanPrompt = newline @
     ''This will remove ALL commits from other users and keep only your commits. Continue? (Y/N): ''"

definition forcePushPrompt :: string where
  "forcePushPrompt = ''Force push the cleaned history to remote? (Y/N): ''"

text \<open>The lines of the log output that are not blank.\<close>

definition logLines :: "string \<Rightarrow> string list" where
  "logLines logOutput = filter (\<lambda>line. js_trim line \<noteq> []) (js_split (CHR 0x0A) logOutput)"

definition hashText :: "commit \<Rightarrow> string" where
  "hashText c = (case hash c of None \<Rightarrow> ''undefined'' | Some h \<Rightarrow> h)"

text \<open>The five commands that replace the branch by a single fresh commit; the first failure stops them.\<close>

definition freshRepository :: "'w env \<Rightarrow> string \<Rightarrow> string \<Rightarrow> 'w st \<Rightarrow> (error + unit) \<times> 'w st" where
  "freshRepository E currentUser currentBranch s =
     (case runCommandStdIO E ''git checkout --orphan temp-clean-branch'' s of
        (Inl e, s1) \<Rightarrow> (Inl e, s1)
      | (Inr u, s1) \<Rightarrow>
     (case runCommandStdIO E ''git add -A'' s1 of
        (Inl e, s2) \<Rightarrow> (Inl e, s2)
      | (Inr u, s2) \<Rightarrow>
     (case runCommandStdIO E (''git commit -m '' @ dquote
              @ ''Clean repository - Initial commit by '' @ currentUser @ dquote) s2 of
        (Inl e, s3) \<Rightarrow> (Inl e, s3)
      | (Inr u, s3) \<Rightarrow>
     (case runCommandStdIO E (''git branch -D '' @ currentBranch) s3 of
        (Inl e, s4) \<Rightarrow> (Inl e, s4)
      | (Inr u, s4) \<Rightarrow>
     runCommandStdIO E (''git branch -m '' @ currentBranch) s4))))"

definition forcePush :: "'w env \<Rightarrow> string \<Rightarrow> 'w st \<Rightarrow> 'w st" where
  "forcePush E currentBranch s =
     (case askQuestion E forcePushPrompt s of (pushClean, s1) \<Rightarrow>
      if js_toLowerCase pushClean = ''y''
      then snd (runCommandStdIO E (''git push --force origin '' @ currentBranch) s1)
      else s1)"

definition opCleanOldUserCommits :: "'w env \<Rightarrow> config option \<Rightarrow> 'w st \<Rightarrow> 'w st" where
  "opCleanOldUserCommits E cfg s =
     (case cfg of None \<Rightarrow> s
      | Some c \<Rightarrow>
     if githubUsername c = [] then s else
     (case getCurrentGitBranch E s of
        (Inl e, s1) \<Rightarrow> s1
      | (Inr currentBranch, s1) \<Rightarrow>
     (case runCommand E logCommand s1 of
        (Inl e, s2) \<Rightarrow> s2
      | (Inr logOutput, s2) \<Rightarrow>
     let commits = logLines logOutput;
         currentUser = githubUsername c
     in if length commits = 0 then s2 else
     (case partitionCommits currentUser commits [] [] of
        Inl e \<Rightarrow> s2
      | Inr (currentUserCommits, oldUserCommits) \<Rightarrow>
     if length oldUserCommits = 0 then s2 else
     (case askQuestion E confirmCleanPrompt s2 of (confirmClean, s3) \<Rightarrow>
     if js_toLowerCase confirmClean \<noteq> ''y'' then s3
     else if length currentUserCommits = 0 then
       (case freshRepository E currentUser currentBranch s3 of
          (Inl e, s4) \<Rightarrow> s4
        | (Inr u, s4) \<Rightarrow> forcePush E currentBranch s4)
     else
       (case runCommandStdIO E (''git reset --hard '' @ hashText (last currentUserCommits)) s3 of
          (Inl e, s4) \<Rightarrow> s4
        | (Inr u, s4) \<Rightarrow> forcePush E currentBranch s4))))))"

definition cleanAllPrompt :: string where
  "cleanAllPrompt = ''Continue with cleaning all commit history? (Y/N): ''"

definition opCleanAllCommits :: "'w env \<Rightarrow> config option \<Rightarrow> 'w st \<Rightarrow> 'w st" where
  "opCleanAllCommits E cfg s =
     (case cfg of None \<Rightarrow> s
      | Some c \<Rightarrow>
     if githubUsername c = [] then s else
     (case getCurrentGitBranch E s of
        (Inl e, s1) \<Rightarrow> s1
      | (Inr currentBranch, s1) \<Rightarrow>
     (case askQuestion E cleanAllPrompt s1 of (confirmClean, s2) \<Rightarrow>
     if js_toLowerCase confirmClean \<noteq> ''y'' then s2 else
     (case freshRepository E (githubUsername c) currentBranch s2 of
        (Inl e, s3) \<Rightarrow> snd (runCommandStdIO E (''git checkout '' @ currentBranch) s3)
      | (Inr u, s3) \<Rightarrow> forcePush E currentBranch s3))))"

section \<open>The installer's \<open>.gitignore\<close> update\<close>

text \<open>
  The file system as these functions use it: a path holds a file, a directory or nothing,
  and a write fails on a directory or when the file system is read-only.
\<close>

datatype node = File string | Directory

record fs =
  nodes :: "string \<Rightarrow> node option"
  readOnly :: bool

definition existsSync :: "fs \<Rightarrow> string \<Rightarrow> bool" where
  "existsSync f p = (nodes f p \<noteq> None)"

definition readFileSync :: "fs \<Rightarrow> string \<Rightarrow> error + string" where
  "readFileSync f p =
     (case nodes f p of
        None \<Rightarrow> Inl (Error ''ENOENT'')
      | Some Directory \<Rightarrow> Inl (Error ''EISDIR'')
      | Some (File data) \<Rightarrow> Inr data)"

definition writeFileSync :: "fs \<Rightarrow> string \<Rightarrow> string \<Rightarrow> error + fs" where
  "writeFileSync f p data =
     (if readOnly f then Inl (Error ''EROFS'')
      else (case nodes f p of
              Some Directory \<Rightarrow> Inl (Error ''EISDIR'')
            | _ \<Rightarrow> Inr (f\<lparr>nodes := (nodes f)(p \<mapsto> File data)\<rparr>)))"

definition appendFileSync :: "fs \<Rightarrow> string \<Rightarrow> string \<Rightarrow> error + fs" where
  "appendFileSync f p data =
     (if readOnly f then Inl (Error ''EROFS'')
      else (case nodes f p of
              Some Directory \<Rightarrow> Inl (Error ''EISDIR'')
            | Some (File old) \<Rightarrow> Inr (f\<lparr>nodes := (nodes f)(p \<mapsto> File (old @ data))\<rparr>)
            | None \<Rightarrow> Inr (f\<lparr>nodes := (nodes f)(p \<mapsto> File data)\<rparr>)))"

definition path_join :: "string \<Rightarrow> string \<Rightarrow> string" where
  "path_join dir name = dir @ ''/'' @ name"

definition TOOL_DIR :: string where
  "TOOL_DIR = ''backupTool''"

definition toolGitignoreContent :: string where
  "toolGitignoreContent =
     newline @ ''# '' @ TOOL_DIR @ newline @ ''/'' @ TOOL_DIR @ ''/'' @ newline @ ''.env*''
       @ newline @ ''*.key'' @ newline @ ''*.pem'' @ newline @ ''config.local.*'' @ newline"

definition toolGitignoreMarker :: string where
  "toolGitignoreMarker = ''# '' @ TOOL_DIR"

definition rulesToAdd :: "string \<Rightarrow> string list" where
  "rulesToAdd gitignoreContent =
     filter (\<lambda>rule.
        let trimmedRule = js_trim rule
        in if trimmedRule = [] then False
           else let ruleToCheck = (if js_endsWith trimmedRule ''/'' then butlast trimmedRule
                                   else trimmedRule)
                in \<not> js_includes gitignoreContent ruleToCheck)
       (js_split (CHR 0x0A) toolGitignoreContent)"

definition contentToAppend :: "string \<Rightarrow> string" where
  "contentToAppend gitignoreContent =
     (if length (rulesToAdd gitignoreContent) > 0 then
        (if js_includes gitignoreContent toolGitignoreMarker then newline
         else newline @ toolGitignoreMarker @ newline @ ''# '' @ TOOL_DIR @ '' rules'' @ newline)
        @ js_join newline (rulesToAdd gitignoreContent) @ newline
      else if \<not> js_includes gitignoreContent (''/'' @ TOOL_DIR @ ''/'') then
        newline @ toolGitignoreMarker @ newline @ ''/'' @ TOOL_DIR @ ''/'' @ newline
      else [])"

definition appendPrefix :: "string \<Rightarrow> string \<Rightarrow> string" where
  "appendPrefix gitignoreContent toAppend =
     (if length gitignoreContent > 0 \<and> \<not> js_endsWith gitignoreContent newline then newline
      else if length gitignoreContent > 0 \<and> js_endsWith gitignoreContent newline
              \<and> \<not> js_endsWith gitignoreContent (newline @ newline)
              \<and> \<not> js_startsWith toAppend newline then newline
      else [])"

definition updateProjectGitignore :: "string \<Rightarrow> fs \<Rightarrow> fs" where
  "updateProjectGitignore targetDir f =
     (let projectGitignorePath = path_join targetDir ''.gitignore''
      in if \<not> existsSync f projectGitignorePath then
           (case writeFileSync f projectGitignorePath
                   (''# Generated by '' @ TOOL_DIR @ newline @ toolGitignoreContent) of
              Inl e \<Rightarrow> f
            | Inr f' \<Rightarrow> f')
         else
           (case readFileSync f projectGitignorePath of
              Inl e \<Rightarrow> f
            | Inr gitignoreContent \<Rightarrow>
                if js_includes gitignoreContent toolGitignoreMarker then f
                else if contentToAppend gitignoreContent \<noteq> [] then
                  (case appendFileSync f projectGitignorePath
                          (appendPrefix gitignoreContent (contentToAppend gitignoreContent)
                             @ contentToAppend gitignoreContent) of
                     Inl e \<Rightarrow> f
                   | Inr f' \<Rightarrow> f')
                else f))"

section \<open>JSON\<close>

text \<open>
  \<open>JSON.stringify(value, null, 2)\<close> and \<open>JSON.parse(text)\<close> belong to the language.
  They are modelled on the values JSON has. A number is an integer, printed in decimal as
  JavaScript prints the integers it represents exactly; a text with a fraction or an
  exponent is outside the model and the parser rejects it. An object lists its members in
  the order of its keys, which for keys that are not array indices is the order in which
  they were added.
\<close>

datatype json =
    JNull
  | JBool bool
  | JNumber int
  | JString string
  | JArray "json list"
  | JObject "(string \<times> json) list"

text \<open>
  \<open>QuoteJSONString\<close>: a backslash before the double quote and the backslash, the short
  escapes for backspace, tab, line feed, form feed and carriage return, \<open>\u00XX\<close> in lower
  case for the other characters below the space, every other character as it is.
\<close>

definition controlChars :: string where
  "controlChars =
     [CHR 0x00, CHR 0x01, CHR 0x02, CHR 0x03, CHR 0x04, CHR 0x05, CHR 0x06, CHR 0x07,
      CHR 0x08, CHR 0x09, CHR 0x0A, CHR 0x0B, CHR 0x0C, CHR 0x0D, CHR 0x0E, CHR 0x0F,
      CHR 0x10, CHR 0x11, CHR 0x12, CHR 0x13, CHR 0x14, CHR 0x15, CHR 0x16, CHR 0x17,
      CHR 0x18, CHR 0x19, CHR 0x1A, CHR 0x1B, CHR 0x1C, CHR 0x1D, CHR 0x1E, CHR 0x1F]"

definition namedEscapes :: "(char \<times> char) list" where
  "namedEscapes =
     [(CHR 0x08, CHR ''b''), (CHR 0x09, CHR ''t''), (CHR 0x0A, CHR ''n''),
      (CHR 0x0C, CHR ''f''), (CHR 0x0D, CHR ''r'')]"

definition hexDigits :: string where
  "hexDigits = ''0123456789abcdef''"

definition escapeChar :: "char \<Rightarrow> string" where
  "escapeChar c =
     (if c = CHR 0x22 then [CHR 0x5C, CHR 0x22]
      else if c = CHR 0x5C then [CHR 0x5C, CHR 0x5C]
      else if c \<in> set controlChars then
        (case map_of namedEscapes c of
           Some e \<Rightarrow> [CHR 0x5C, e]
         | None \<Rightarrow>
             [CHR 0x5C, CHR ''u'', CHR ''0'', CHR ''0'',
              hexDigits ! (of_char c div 16), hexDigits ! (of_char c mod 16)])
      else [c])"

definition quoteJSONString :: "string \<Rightarrow> string" where
  "quoteJSONString s = dquote @ concat (map escapeChar s) @ dquote"

text \<open>An integer in decimal, with a minus sign when it is negative.\<close>

fun showNat :: "nat \<Rightarrow> string" where
  "showNat n =
     (if n < 10 then [''0123456789'' ! n]
      else showNat (n div 10) @ [''0123456789'' ! (n mod 10)])"

declare showNat.simps [simp del]

definition showInt :: "int \<Rightarrow> string" where
  "showInt i = (if i < 0 then ''-'' @ showNat (nat (- i)) else showNat (nat i))"

text \<open>
  With the indentation 2, the members of a non-empty object and the elements of a non-empty
  array are on lines of their own, two spaces further in than the line of the bracket, and
  a colon and a space separate a key from its value.
\<close>

definition spaces :: "nat \<Rightarrow> string" where
  "spaces n = replicate n (CHR '' '')"

fun stringify :: "nat \<Rightarrow> json \<Rightarrow> string"
  and stringifyElements :: "nat \<Rightarrow> json list \<Rightarrow> string list"
  and stringifyMembers :: "nat \<Rightarrow> (string \<times> json) list \<Rightarrow> string list" where
  "stringify ind JNull = ''null''"
| "stringify ind (JBool b) = (if b then ''true'' else ''false'')"
| "stringify ind (JNumber n) = showInt n"
| "stringify ind (JString s) = quoteJSONString s"
| "stringify ind (JArray xs) =
     (if xs = [] then ''[]''
      else ''['' @ newline @ js_join ('','' @ newline) (stringifyElements (ind + 2) xs)
             @ newline @ spaces ind @ '']'')"
| "stringify ind (JObject ms) =
     (if ms = [] then ''{}''
      else ''{'' @ newline @ js_join ('','' @ newline) (stringifyMembers (ind + 2) ms)
             @ newline @ spaces ind @ ''}'')"
| "stringifyElements ind [] = []"
| "stringifyElements ind (x # xs) = (spaces ind @ stringify ind x) # stringifyElements ind xs"
| "stringifyMembers ind [] = []"
| "stringifyMembers ind ((k, v) # ms) =
     (spaces ind @ quoteJSONString k @ '': '' @ stringify ind v) # stringifyMembers ind ms"

definition JSON_stringify :: "json \<Rightarrow> error + string" where
  "JSON_stringify v = Inr (stringify 0 v)"

text \<open>
  The parser. White space may stand before and after every value and every token. A string
  ends at the first double quote that no backslash escapes and holds no raw character
  below the space; \<open>\uXXXX\<close> is read for the code points the model has. A number has no
  leading zero. Of two members with one key the later gives the value. The functions
  recurse on fuel, one unit for each level and each element, and \<open>JSON_parse\<close> starts them
  with the length of the text; that this is enough for the text of a config object is
  part of the round trip proved below.
\<close>

definition isJsonSpace :: "char \<Rightarrow> bool" where
  "isJsonSpace c = (c \<in> {CHR 0x20, CHR 0x09, CHR 0x0A, CHR 0x0D})"

definition skipSpace :: "string \<Rightarrow> string" where
  "skipSpace text = dropWhile isJsonSpace text"

definition hexValue :: "char \<Rightarrow> nat option" where
  "hexValue = map_of
     [(CHR ''0'', 0), (CHR ''1'', 1), (CHR ''2'', 2), (CHR ''3'', 3), (CHR ''4'', 4),
      (CHR ''5'', 5), (CHR ''6'', 6), (CHR ''7'', 7), (CHR ''8'', 8), (CHR ''9'', 9),
      (CHR ''a'', 10), (CHR ''b'', 11), (CHR ''c'', 12), (CHR ''d'', 13), (CHR ''e'', 14),
      (CHR ''f'', 15), (CHR ''A'', 10), (CHR ''B'', 11), (CHR ''C'', 12), (CHR ''D'', 13),
      (CHR ''E'', 14), (CHR ''F'', 15)]"

definition unicodeChar :: "string \<Rightarrow> char option" where
  "unicodeChar h =
     (case map hexValue h of
        [Some a, Some b, Some c, Some d] \<Rightarrow>
          (let code = ((a * 16 + b) * 16 + c) * 16 + d
           in if code < 256 then Some (char_of code) else None)
      | _ \<Rightarrow> None)"

definition simpleEscapes :: "(char \<times> char) list" where
  "simpleEscapes =
     [(CHR 0x22, CHR 0x22), (CHR 0x5C, CHR 0x5C), (CHR ''/'', CHR ''/''),
      (CHR ''b'', CHR 0x08), (CHR ''f'', CHR 0x0C), (CHR ''n'', CHR 0x0A),
      (CHR ''r'', CHR 0x0D), (CHR ''t'', CHR 0x09)]"

fun decodeEscape :: "string \<Rightarrow> (char \<times> nat) option" where
  "decodeEscape [] = None"
| "decodeEscape (e # cs) =
     (if e = CHR ''u'' then
        (if length cs < 4 then None
         else map_option (\<lambda>d. (d, 5)) (unicodeChar (take 4 cs)))
      else map_option (\<lambda>d. (d, 1)) (map_of simpleEscapes e))"

fun parseChars :: "string \<Rightarrow> (string \<times> string) option" where
  "parseChars [] = None"
| "parseChars (c # cs) =
     (if c = CHR 0x22 then Some ([], cs)
      else if c = CHR 0x5C then
        (case decodeEscape cs of
           None \<Rightarrow> None
         | Some (d, n) \<Rightarrow> map_option (\<lambda>(s, rest). (d # s, rest)) (parseChars (drop n cs)))
      else if c \<in> set controlChars then None
      else map_option (\<lambda>(s, rest). (c # s, rest)) (parseChars cs))"

definition isDigit :: "char \<Rightarrow> bool" where
  "isDigit c = (c \<in> set ''0123456789'')"

definition digitValue :: "char \<Rightarrow> nat" where
  "digitValue c = (case hexValue c of Some d \<Rightarrow> d | None \<Rightarrow> 0)"

definition natOfDigits :: "string \<Rightarrow> nat" where
  "natOfDigits ds = foldl (\<lambda>a d. 10 * a + digitValue d) 0 ds"

definition parseNumber :: "string \<Rightarrow> (json \<times> string) option" where
  "parseNumber text =
     (let negative = prefix ''-'' text;
          unsigned = (if negative then tl text else text);
          ds = takeWhile isDigit unsigned;
          rest = dropWhile isDigit unsigned
      in if ds = [] \<or> (1 < length ds \<and> hd ds = CHR ''0'') then None
         else if rest \<noteq> [] \<and> hd rest \<in> {CHR ''.'', CHR ''e'', CHR ''E''} then None
         else Some (JNumber (if negative then - int (natOfDigits ds) else int (natOfDigits ds)),
                    rest))"

fun parseValue :: "nat \<Rightarrow> string \<Rightarrow> (json \<times> string) option"
  and parseElements :: "nat \<Rightarrow> string \<Rightarrow> (json list \<times> string) option"
  and parseMembers :: "nat \<Rightarrow> string \<Rightarrow> ((string \<times> json) list \<times> string) option" where
  "parseValue 0 text = None"
| "parseValue (Suc n) text =
     (case skipSpace text of
        [] \<Rightarrow> None
      | c # rest \<Rightarrow>
          if c = CHR 0x22 then
            map_option (\<lambda>(s, rest'). (JString s, rest')) (parseChars rest)
          else if c = CHR ''['' then
            (if prefix '']'' (skipSpace rest) then Some (JArray [], tl (skipSpace rest))
             else map_option (\<lambda>(xs, rest'). (JArray xs, rest')) (parseElements n rest))
          else if c = CHR ''{'' then
            (if prefix ''}'' (skipSpace rest) then Some (JObject [], tl (skipSpace rest))
             else map_option
                    (\<lambda>(ms, rest'). (JObject (fold (\<lambda>(k, v). AList.update k v) ms []), rest'))
                    (parseMembers n rest))
          else if prefix ''true'' (c # rest) then Some (JBool True, drop 4 (c # rest))
          else if prefix ''false'' (c # rest) then Some (JBool False, drop 5 (c # rest))
          else if prefix ''null'' (c # rest) then Some (JNull, drop 4 (c # rest))
          else parseNumber (c # rest))"
| "parseElements 0 text = None"
| "parseElements (Suc n) text =
     (case parseValue n text of
        None \<Rightarrow> None
      | Some (x, rest) \<Rightarrow>
          (case skipSpace rest of
             [] \<Rightarrow> None
           | c # rest' \<Rightarrow>
               if c = CHR '','' then
                 map_option (\<lambda>(xs, rest''). (x # xs, rest'')) (parseElements n rest')
               else if c = CHR '']'' then Some ([x], rest')
               else None))"
| "parseMembers 0 text = None"
| "parseMembers (Suc n) text =
     (case skipSpace text of
        [] \<Rightarrow> None
      | q # afterQuote \<Rightarrow>
          if q \<noteq> CHR 0x22 then None
          else
            (case parseChars afterQuote of
               None \<Rightarrow> None
             | Some (k, afterKey) \<Rightarrow>
                 (case skipSpace afterKey of
                    [] \<Rightarrow> None
                  | colon # afterColon \<Rightarrow>
                      if colon \<noteq> CHR '':'' then None
                      else
                        (case parseValue n afterColon of
                           None \<Rightarrow> None
                         | Some (v, rest) \<Rightarrow>
                             (case skipSpace rest of
                                [] \<Rightarrow> None
                              | c # rest' \<Rightarrow>
                                  if c = CHR '','' then
                                    map_option (\<lambda>(ms, rest''). ((k, v) # ms, rest''))
                                      (parseMembers n rest')
                                  else if c = CHR ''}'' then Some ([(k, v)], rest')
                                  else None)))))"

definition JSON_parse :: "string \<Rightarrow> error + json" where
  "JSON_parse text =
     (case parseValue (length text) text of
        None \<Rightarrow> Inl (Error ''SyntaxError'')
      | Some (v, rest) \<Rightarrow>
          if skipSpace rest = [] then Inr v else Inl (Error ''SyntaxError''))"

text \<open>What may follow a number in a text: nothing, or a character that does not continue it.\<close>

definition endsNumber :: "string \<Rightarrow> bool" where
  "endsNumber rest =
     (rest = [] \<or> (\<not> isDigit (hd rest) \<and> hd rest \<notin> {CHR ''.'', CHR ''e'', CHR ''E''}))"

text \<open>The integers that JavaScript represents exactly.\<close>

definition safeInteger :: "int \<Rightarrow> bool" where
  "safeInteger n = (\<bar>n\<bar> < 2 ^ 53)"

section \<open>The config store\<close>

text \<open>
  The object that \<open>createProjectConfig\<close> writes and the operations read: the seven fields in
  the order of the source.
\<close>

definition configObject :: "config \<Rightarrow> json" where
  "configObject c =
     JObject
       [(''projectName'', JString (projectName c)),
        (''githubUsername'', JString (githubUsername c)),
        (''backupBranch'', JString (backupBranch c)),
        (''autoIgnoreFiles'', JArray (map JString (autoIgnoreFiles c))),
        (''maxBackupAttempts'', JNumber (maxBackupAttempts c)),
        (''createdAt'', JString (createdAt c)),
        (''version'', JString (version c))]"

text \<open>
  \<open>configFilePath\<close> is \<open>undefined\<close> (\<open>None\<close>) outside operation mode. \<open>readConfig\<close> returns
  \<open>None\<close> for \<open>null\<close>, also where \<open>null\<close> is what the file holds.
\<close>

definition readConfig :: "string option \<Rightarrow> fs \<Rightarrow> json option" where
  "readConfig configFilePath f =
     (case configFilePath of
        None \<Rightarrow> None
      | Some p \<Rightarrow>
          if p = [] \<or> \<not> existsSync f p then None
          else (case readFileSync f p of
                  Inl e \<Rightarrow> None
                | Inr rawData \<Rightarrow>
                    (case JSON_parse rawData of
                       Inl e \<Rightarrow> None
                     | Inr v \<Rightarrow> if v = JNull then None else Some v)))"

definition updateConfig :: "string option \<Rightarrow> json \<Rightarrow> fs \<Rightarrow> bool \<times> fs" where
  "updateConfig configFilePath newConfigData f =
     (case configFilePath of
        None \<Rightarrow> (False, f)
      | Some p \<Rightarrow>
          if p = [] then (False, f)
          else (case JSON_stringify newConfigData of
                  Inl e \<Rightarrow> (False, f)
                | Inr text \<Rightarrow>
                    (case writeFileSync f p text of
                       Inl e \<Rightarrow> (False, f)
                     | Inr f' \<Rightarrow> (True, f'))))"

section \<open>A model of git\<close>

text \<open>
  What the history-rewrite operations do to a repository depends on git. The model keeps
  what their commands touch: the local branches, each with its commits from the newest to
  the oldest, the checked-out branch (unborn while it is not among the branches) and the
  identity git signs new commits with. Tags and remote-tracking branches, the index, the
  working tree, the hooks and the remote are left out. A command can fail for a reason that
  lies there (nothing is staged for \<open>git commit\<close>, a lock file is in the way, origin rejects
  a push): the repository lists the command lines git refuses for such a reason as
  \<open>refused\<close>.

  The command line goes through \<open>/bin/sh\<close>. Between double quotes the shell keeps every
  character but the dollar sign, the backquote, the double quote and the backslash. What it
  makes of a text with one of these depends on its own state: \<open>shell\<close> lists such texts with
  what the shell passes on, and a text that is not listed is a syntax error.
\<close>

record gitCommit =
  sha :: string
  byName :: string
  byEmail :: string
  msg :: string
  date :: nat

record repo =
  branches :: "(string \<times> gitCommit list) list"
  HEAD :: string
  userName :: string
  userEmail :: string
  shell :: "(string \<times> string) list"
  refused :: "string list"

definition allCommits :: "repo \<Rightarrow> gitCommit list" where
  "allCommits r = remdups (concat (map snd (branches r)))"

text \<open>
  \<open>git log --all\<close> prints every commit of every branch once, the newest first by commit
  date, one line each in the format the script asks for.
\<close>

definition logCommits :: "repo \<Rightarrow> gitCommit list" where
  "logCommits r = rev (sort_key date (allCommits r))"

definition logLine :: "gitCommit \<Rightarrow> string" where
  "logLine c = sha c @ ''|'' @ byName c @ ''|'' @ byEmail c @ ''|'' @ msg c"

definition logText :: "repo \<Rightarrow> string" where
  "logText r = js_join newline (map logLine (logCommits r))"

text \<open>The hash of the next commit, a string that no commit has yet, and its date.\<close>

definition newSha :: "repo \<Rightarrow> string" where
  "newSha r = replicate (Suc (fold max (map (length \<circ> sha) (allCommits r)) 0)) (CHR ''0'')"

definition newDate :: "repo \<Rightarrow> nat" where
  "newDate r = Suc (fold max (map date (allCommits r)) 0)"

text \<open>The history that starts at the commit with hash \<open>h\<close>, on the first branch that holds it.\<close>

definition historyFrom :: "string \<Rightarrow> repo \<Rightarrow> gitCommit list option" where
  "historyFrom h r =
     (case filter (\<lambda>hs. hs \<noteq> [])
             (map (\<lambda>(b, hs). dropWhile (\<lambda>c. sha c \<noteq> h) hs) (branches r)) of
        [] \<Rightarrow> None
      | hs # _ \<Rightarrow> Some hs)"

definition currentHistory :: "repo \<Rightarrow> gitCommit list" where
  "currentHistory r = (case map_of (branches r) (HEAD r) of None \<Rightarrow> [] | Some hs \<Rightarrow> hs)"

definition renameBranch :: "string \<Rightarrow> string \<Rightarrow> (string \<times> 'a) list \<Rightarrow> (string \<times> 'a) list" where
  "renameBranch old new bs = map (\<lambda>(k, hs). if k = old then (new, hs) else (k, hs)) bs"

definition fatal :: "repo \<Rightarrow> (error + string) \<times> repo" where
  "fatal r = (Inl (Error ''fatal''), r)"

definition shellLiteral :: "string \<Rightarrow> bool" where
  "shellLiteral m = (\<forall>c\<in>set m. c \<notin> {CHR ''$'', CHR 0x60, CHR 0x22, CHR 0x5C})"

definition shellText :: "repo \<Rightarrow> string \<Rightarrow> string option" where
  "shellText r m = (if shellLiteral m then Some m else map_of (shell r) m)"

text \<open>
  The commands. A refused command fails. \<open>checkout --orphan\<close> needs a branch name that is
  free and leaves the new branch unborn; \<open>commit\<close> puts a new commit, signed with the
  configured identity and dated after every other, on top of the checked-out branch;
  \<open>branch -D\<close> refuses the checked-out branch and a branch that is not there; \<open>branch -m\<close>
  renames the checked-out branch to a name that is free; \<open>reset --hard\<close> moves the
  checked-out branch to the history from the named commit on. A failing command leaves the
  repository as it is, and so does a command the model does not know.
\<close>

definition git :: "string \<Rightarrow> repo \<Rightarrow> (error + string) \<times> repo" where
  "git command r =
     (if command \<in> set (refused r) then fatal r
      else if command = ''git rev-parse --abbrev-ref HEAD'' then
        (if map_of (branches r) (HEAD r) = None then fatal r else (Inr (HEAD r), r))
      else if command = ''git branch --show-current'' then (Inr (HEAD r), r)
      else if command = logCommand then (Inr (logText r), r)
      else if command = ''git add -A'' then (Inr [], r)
      else if prefix ''git checkout --orphan '' command then
        (let b = drop (length ''git checkout --orphan '') command
         in if map_of (branches r) b \<noteq> None then fatal r else (Inr [], r\<lparr>HEAD := b\<rparr>))
      else if prefix (''git commit -m '' @ dquote) command \<and> suffix dquote command then
        (case shellText r (butlast (drop (length (''git commit -m '' @ dquote)) command)) of
           None \<Rightarrow> fatal r
         | Some m \<Rightarrow>
             (Inr [], r\<lparr>branches := AList.update (HEAD r)
                           (\<lparr>sha = newSha r, byName = userName r, byEmail = userEmail r,
                             msg = m, date = newDate r\<rparr> # currentHistory r) (branches r)\<rparr>))
      else if prefix ''git branch -D '' command then
        (let b = drop (length ''git branch -D '') command
         in if b = HEAD r \<or> map_of (branches r) b = None then fatal r
            else (Inr [], r\<lparr>branches := AList.delete b (branches r)\<rparr>))
      else if prefix ''git branch -m '' command then
        (let b = drop (length ''git branch -m '') command
         in if map_of (branches r) b \<noteq> None then fatal r
            else (Inr [], r\<lparr>branches := renameBranch (HEAD r) b (branches r), HEAD := b\<rparr>))
      else if prefix ''git reset --hard '' command then
        (case historyFrom (drop (length ''git reset --hard '') command) r of
           None \<Rightarrow> fatal r
         | Some hs \<Rightarrow> (Inr [], r\<lparr>branches := AList.update (HEAD r) hs (branches r)\<rparr>))
      else if prefix ''git push --force origin '' command then (Inr [], r)
      else fatal r)"

definition gitEnv :: "(string \<Rightarrow> string) \<Rightarrow> repo env" where
  "gitEnv answers = \<lparr>execSync = git, gitDirExists = (\<lambda>r. True), question = answers,
                     timestamp = ''2025-01-01 00:00:00''\<rparr>"





section \<open>Concrete runs\<close>

text \<open>
  An environment that answers each command from a table (a command not in the table fails)
  and each question from a second table, over a world with nothing in it.
\<close>

definition scripted ::
  "(string \<times> (error + string)) list \<Rightarrow> bool \<Rightarrow> (string \<times> string) list \<Rightarrow> unit env" where
  "scripted script isRepository answers =
     \<lparr>execSync = (\<lambda>command w. (case map_of script command of
                                   None \<Rightarrow> (Inl (Error ''command failed''), w)
                                 | Some r \<Rightarrow> (r, w))),
      gitDirExists = (\<lambda>w. isRepository),
      question = (\<lambda>query. case map_of answers query of None \<Rightarrow> [] | Some a \<Rightarrow> a),
      timestamp = ''2025-01-01 00:00:00''\<rparr>"

definition start :: "unit st" where
  "start = \<lparr>world = (), trace = []\<rparr>"

text \<open>A clean working tree on \<open>main\<close>, one commit ahead of \<open>origin/main\<close>.\<close>

definition aheadScript :: "(string \<times> (error + string)) list" where
  "aheadScript =
     [(''git rev-parse --abbrev-ref HEAD'', Inr ''main''),
      (''git status --porcelain'', Inr []),
      (''git remote update'', Inr []),
      (''git rev-parse HEAD'', Inr ''a1''),
      (''git ls-remote --heads origin main'', Inr ''a0 refs/heads/main''),
      (''git rev-parse origin/main'', Inr ''a0''),
      (''git merge-base HEAD origin/main'', Inr ''a0''),
      (''git push origin main'', Inr [])]"



text \<open>
  An environment whose world is what origin has received: a \<open>git push\<close> succeeds and adds
  its command line to the world, every other command is answered from the table.
\<close>

definition pushing :: "(string \<times> (error + string)) list \<Rightarrow> string list env" where
  "pushing script =
     \<lparr>execSync = (\<lambda>command w.
                    if prefix ''git push '' command then (Inr [], w @ [command])
                    else (case map_of script command of
                            None \<Rightarrow> (Inl (Error ''command failed''), w)
                          | Some r \<Rightarrow> (r, w))),
      gitDirExists = (\<lambda>w. True),
      question = (\<lambda>query. []),
      timestamp = ''2025-01-01 00:00:00''\<rparr>"

definition nothingPushed :: "string list st" where
  "nothingPushed = \<lparr>world = [], trace = []\<rparr>"

definition aliceConfig :: config where
  "aliceConfig =
     \<lparr>projectName = ''demo'', githubUsername = ''alice'', backupBranch = ''main'',
      autoIgnoreFiles = [''.env*'', ''*.log''], maxBackupAttempts = 5,
      createdAt = ''2025-01-01 00:00:00'', version = ''2.7-nodejs-console-quieter''\<rparr>"






text \<open>One branch: alice, then bob, then alice again (newest first).\<close>

definition mixedHistory :: repo where
  "mixedHistory =
     \<lparr>branches =
        [(''main'', [\<lparr>sha = ''a3'', byName = ''alice'', byEmail = ''alice@example.com'',
                      msg = ''third'', date = 3\<rparr>,
                    \<lparr>sha = ''b2'', byName = ''bob'', byEmail = ''bob@example.com'',
                      msg = ''second'', date = 2\<rparr>,
                    \<lparr>sha = ''a1'', byName = ''alice'', byEmail = ''alice@example.com'',
                      msg = ''first'', date = 1\<rparr>])],
      HEAD = ''main'', userName = ''alice'', userEmail = ''alice@example.com'',
      shell = [], refused = []\<rparr>"

definition mixedStart :: "repo st" where
  "mixedStart = \<lparr>world = mixedHistory, trace = []\<rparr>"




definition declineAll :: "string \<Rightarrow> string" where
  "declineAll query = ''n''"

text \<open>The operator types a commit message and declines the empty commit.\<close>

definition declineEmptyCommit :: "(string \<times> string) list" where
  "declineEmptyCommit =
     [(''Please enter your commit message: '', ''work in progress''),
      (emptyCommitPrompt ''main'', ''n'')]"

text \<open>Three log lines: alice by name, alice by e-mail, and an Alice who is somebody else.\<close>

definition authorLines :: "string list" where
  "authorLines =
     [''h1|alice|a@example.org|one'',
      ''h2|bob|alice@users.noreply.github.com|two'',
      ''h3|Alice|bob@example.org|three'']"

text \<open>A project whose \<open>.gitignore\<close> has one rule and no tool section.\<close>

definition projectFs :: fs where
  "projectFs =
     \<lparr>nodes = (\<lambda>p. if p = ''proj/.gitignore'' then Some (File (''node_modules/'' @ newline))
                     else None),
      readOnly = False\<rparr>"

definition emptyFs :: fs where
  "emptyFs = \<lparr>nodes = (\<lambda>p. None), readOnly = False\<rparr>"

section \<open>Strings: facts\<close>

lemma lowerChar_y: "lowerChar c = CHR ''y'' \<longleftrightarrow> c = CHR ''y'' \<or> c = CHR ''Y''"
  by (simp add: lowerChar_def upperChars_def lowerChars_def)

lemma toLowerCase_y: "js_toLowerCase a = ''y'' \<longleftrightarrow> a = ''y'' \<or> a = ''Y''"
  by (cases a) (auto simp: js_toLowerCase_def lowerChar_y)

lemma js_includes_sublist: "js_includes hay needle \<longleftrightarrow> sublist needle hay"
  by (induction hay) (auto simp: sublist_Cons_right)

lemma includes_append: "js_includes (a @ m @ b) m"
  by (simp add: js_includes_sublist)

lemma dropWhile_rev_dropWhile:
  "dropWhile P (rev (dropWhile P (rev (dropWhile P xs)))) = rev (dropWhile P (rev (dropWhile P xs)))"
proof (cases "dropWhile P xs")
  case Nil
  show ?thesis unfolding Nil by simp
next
  case (Cons y ys)
  then have y: "\<not> P y" using hd_dropWhile [of P xs] by simp
  have "\<exists>zs. dropWhile P (rev ys @ [y]) = zs @ [y]"
    using y by (simp add: dropWhile_append)
  then obtain zs where "dropWhile P (rev ys @ [y]) = zs @ [y]" ..
  then show ?thesis using Cons y by simp
qed

lemma js_trim_idem: "js_trim (js_trim x) = js_trim x"
  by (simp add: js_trim_def dropWhile_rev_dropWhile)

lemma js_trim_Nil: "js_trim [] = []"
  by (simp add: js_trim_def)









section \<open>Runs and their traces: facts\<close>

lemma runCommand_trace:
  "runCommand E c s = (r, s') \<Longrightarrow> trace s' = trace s @ [Cmd c r]"
  by (auto simp: runCommand_def split: prod.splits sum.splits)

lemma runCommandStdIO_trace:
  "runCommandStdIO E c s = (r, s') \<Longrightarrow> trace s' = trace s @ [CmdStdIO c r]"
  by (auto simp: runCommandStdIO_def split: prod.splits sum.splits)

lemma runCommand_world:
  "runCommand E c s = (r, s') \<Longrightarrow> world s' = snd (execSync E c (world s))"
  by (auto simp: runCommand_def split: prod.splits sum.splits)


lemma askQuestion_eq:
  "askQuestion E q s = (js_trim (question E q), s\<lparr>trace := trace s @ [Ask q (js_trim (question E q))]\<rparr>)"
  by (simp add: askQuestion_def Let_def)

lemma commands_append: "commands (xs @ ys) = commands xs @ commands ys"
  by (induction xs rule: commands.induct) simp_all

lemma since_append: "trace s' = trace s @ evs \<Longrightarrow> since s s' = evs"
  by (simp add: since_def)


lemma getCurrentGitBranch_effect:
  assumes "getCurrentGitBranch E s = (r, s')"
  shows "\<exists>evs. trace s' = trace s @ evs
           \<and> set (commands evs)
                \<subseteq> {''git rev-parse --abbrev-ref HEAD'', ''git branch --show-current''}
           \<and> ((\<forall>c\<in>{''git rev-parse --abbrev-ref HEAD'', ''git branch --show-current''}.
                  \<forall>w. snd (execSync E c w) = w) \<longrightarrow> world s' = world s)"
proof -
  obtain r1 s1 where 1: "runCommand E ''git rev-parse --abbrev-ref HEAD'' s = (r1, s1)"
    by force
  note t1 = runCommand_trace [OF 1] and w1 = runCommand_world [OF 1]
  obtain r2 s2 where 2: "runCommand E ''git branch --show-current'' s1 = (r2, s2)"
    by force
  note t2 = runCommand_trace [OF 2] and w2 = runCommand_world [OF 2]
  from assms have "s' = s1 \<or> s' = s2"
    by (auto simp: getCurrentGitBranch_def 1 2 split: sum.splits if_splits)
  then show ?thesis
  proof
    assume "s' = s1"
    then show ?thesis using t1 w1 by simp
  next
    assume "s' = s2"
    then show ?thesis using t1 w1 t2 w2 by simp
  qed
qed

section \<open>The sync classifier\<close>

lemma getGitStatus_table:
  assumes repo: "gitDirExists E (world s)"
  shows "(let status = fst (getGitStatus E branchName s);
              evs = since s (snd (getGitStatus E branchName s))
          in if \<exists>ev\<in>set evs. cmd_failed ev then sync status = ''error''
             else if cmd_output (''git ls-remote --heads origin '' @ branchName) evs = Some []
               then sync status = ''no_remote''
             else cmd_output ''git rev-parse HEAD'' evs = Some (localHash status)
                \<and> cmd_output (''git rev-parse origin/'' @ branchName) evs = Some (remoteHash status)
                \<and> cmd_output (''git merge-base HEAD origin/'' @ branchName) evs
                    = Some (baseHash status)
                \<and> sync status =
                     (if localHash status = remoteHash status then ''uptodate''
                      else if localHash status = baseHash status then ''behind''
                      else if remoteHash status = baseHash status then ''ahead''
                      else ''diverged''))"
proof -
  obtain r1 s1 where 1: "runCommand E ''git status --porcelain'' s = (r1, s1)" by force
  note t1 = runCommand_trace [OF 1]
  show ?thesis
  proof (cases r1)
    case (Inl e)
    then show ?thesis using repo 1 t1 by (simp add: getGitStatus_def since_def Let_def)
  next
    case o1: (Inr statusOutput)
    obtain r2 s2 where 2: "runCommand E ''git remote update'' s1 = (r2, s2)" by force
    note t2 = runCommand_trace [OF 2]
    show ?thesis
    proof (cases r2)
      case (Inl e)
      then show ?thesis using repo 1 t1 o1 2 t2
        by (simp add: getGitStatus_def since_def Let_def)
    next
      case o2: (Inr updateOutput)
      obtain r3 s3 where 3: "runCommand E ''git rev-parse HEAD'' s2 = (r3, s3)" by force
      note t3 = runCommand_trace [OF 3]
      show ?thesis
      proof (cases r3)
        case (Inl e)
        then show ?thesis using repo 1 t1 o1 2 t2 o2 3 t3
          by (simp add: getGitStatus_def since_def Let_def)
      next
        case o3: (Inr loc)
        obtain r4 s4 where
          4: "runCommand E (''git ls-remote --heads origin '' @ branchName) s3 = (r4, s4)"
          by force
        note t4 = runCommand_trace [OF 4]
        show ?thesis
        proof (cases r4)
          case (Inl e)
          then show ?thesis using repo 1 t1 o1 2 t2 o2 3 t3 o3 4 t4
            by (simp add: getGitStatus_def since_def Let_def)
        next
          case o4: (Inr remoteBranchExistsResult)
          show ?thesis
          proof (cases "remoteBranchExistsResult = []")
            case True
            then show ?thesis using repo 1 t1 o1 2 t2 o2 3 t3 o3 4 t4 o4
              by (simp add: getGitStatus_def since_def Let_def)
          next
            case nonempty: False
            obtain r5 s5 where
              5: "runCommand E (''git rev-parse origin/'' @ branchName) s4 = (r5, s5)"
              by force
            note t5 = runCommand_trace [OF 5]
            show ?thesis
            proof (cases r5)
              case (Inl e)
              then show ?thesis using repo 1 t1 o1 2 t2 o2 3 t3 o3 4 t4 o4 nonempty 5 t5
                by (simp add: getGitStatus_def since_def Let_def)
            next
              case o5: (Inr remote)
              obtain r6 s6 where
                6: "runCommand E (''git merge-base HEAD origin/'' @ branchName) s5 = (r6, s6)"
                by force
              note t6 = runCommand_trace [OF 6]
              show ?thesis
              proof (cases r6)
                case (Inl e)
                then show ?thesis
                  using repo 1 t1 o1 2 t2 o2 3 t3 o3 4 t4 o4 nonempty 5 t5 o5 6 t6
                  by (simp add: getGitStatus_def since_def Let_def)
              next
                case o6: (Inr base)
                then show ?thesis
                  using repo 1 t1 o1 2 t2 o2 3 t3 o3 4 t4 o4 nonempty 5 t5 o5 6 t6
                  by (simp add: getGitStatus_def since_def Let_def)
              qed
            qed
          qed
        qed
      qed
    qed
  qed
qed

lemma getGitStatus_norepo:
  "\<not> gitDirExists E (world s) \<Longrightarrow>
   getGitStatus E b s =
     (\<lparr>hasChanges = False, isRepo = False, sync = ''unknown'',
       localHash = [], remoteHash = [], baseHash = []\<rparr>, s)"
  by (simp add: getGitStatus_def)

lemma getGitStatus_effect:
  assumes "getGitStatus E b s = (g, s')"
  shows "\<exists>evs. trace s' = trace s @ evs
           \<and> set (commands evs)
                \<subseteq> {''git status --porcelain'', ''git remote update'', ''git rev-parse HEAD'',
                    ''git ls-remote --heads origin '' @ b, ''git rev-parse origin/'' @ b,
                    ''git merge-base HEAD origin/'' @ b}"
proof -
  obtain r1 s1 where 1: "runCommand E ''git status --porcelain'' s = (r1, s1)" by force
  obtain r2 s2 where 2: "runCommand E ''git remote update'' s1 = (r2, s2)" by force
  obtain r3 s3 where 3: "runCommand E ''git rev-parse HEAD'' s2 = (r3, s3)" by force
  obtain r4 s4 where 4: "runCommand E (''git ls-remote --heads origin '' @ b) s3 = (r4, s4)"
    by force
  obtain r5 s5 where 5: "runCommand E (''git rev-parse origin/'' @ b) s4 = (r5, s5)" by force
  obtain r6 s6 where 6: "runCommand E (''git merge-base HEAD origin/'' @ b) s5 = (r6, s6)"
    by force
  note t = runCommand_trace [OF 1] runCommand_trace [OF 2] runCommand_trace [OF 3]
    runCommand_trace [OF 4] runCommand_trace [OF 5] runCommand_trace [OF 6]
  from assms have "s' = s \<or> s' = s1 \<or> s' = s2 \<or> s' = s3 \<or> s' = s4 \<or> s' = s5 \<or> s' = s6"
    using 1 2 3 4 5 6
    by (auto simp: getGitStatus_def Let_def split: sum.splits if_splits)
  then show ?thesis using t by auto
qed






text \<open>
  C2 (amended). In a git repository the sync field is one of the six states. Where the
  directory is not a git repository, \<open>getGitStatus\<close> runs no command and the field keeps its
  initial value \<open>unknown\<close>, which is none of the six.
\<close>

theorem getGitStatus_sync_states:
  "(if gitDirExists E (world s)
    then sync (fst (getGitStatus E b s))
           \<in> {''uptodate'', ''behind'', ''ahead'', ''diverged'', ''no_remote'', ''error''}
    else sync (fst (getGitStatus E b s)) = ''unknown'' \<and> snd (getGitStatus E b s) = s)"
proof (cases "gitDirExists E (world s)")
  case True
  from getGitStatus_table [OF True, of b] True show ?thesis
    by (auto simp: Let_def split: if_splits)
next
  case False
  then show ?thesis by (simp add: getGitStatus_norepo)
qed

theorem getGitStatus_sync_states_witness:
  "gitDirExists (scripted aheadScript True []) (world start)
   \<and> sync (fst (getGitStatus (scripted aheadScript True []) ''main'' start))
       \<in> {''uptodate'', ''behind'', ''ahead'', ''diverged'', ''no_remote'', ''error''}"
proof -
  have h: "gitDirExists (scripted aheadScript True []) (world start)"
    by (simp add: scripted_def)
  show ?thesis
    using h getGitStatus_sync_states [of "scripted aheadScript True []" start "''main''"]
    by simp
qed

theorem getGitStatus_sync_states_counterexample:
  "\<not> gitDirExists (scripted [] False []) (world start)
   \<and> sync (fst (getGitStatus (scripted [] False []) ''main'' start))
       \<notin> {''uptodate'', ''behind'', ''ahead'', ''diverged'', ''no_remote'', ''error''}"
  by (simp add: getGitStatus_def scripted_def)

section \<open>The sync report pushes\<close>

lemma displaySyncStatus_effect:
  "\<exists>evs. trace (displaySyncStatus E g b operationType s)
           = trace s @ Console (operationType @ '': Sync status for branch '' @ apos @ b @ apos
                                  @ '' is '' @ sync g @ ''.'') # evs
         \<and> set (commands evs) \<subseteq> {''git push origin '' @ b, ''git push -u origin '' @ b}
         \<and> (sync g = ''ahead'' \<longrightarrow> commands evs = [''git push origin '' @ b])
         \<and> (sync g = ''no_remote'' \<longrightarrow> commands evs = [''git push -u origin '' @ b])"
proof -
  let ?s0 = "console (operationType @ '': Sync status for branch '' @ apos @ b @ apos
                        @ '' is '' @ sync g @ ''.'') s"
  let ?ahead = "console (''Local branch '' @ apos @ b @ apos @ '' is ahead of ''
                  @ (''origin/'' @ b) @ ''. Pushing existing commits...'') ?s0"
  let ?fresh = "console (''Remote branch '' @ (''origin/'' @ b) @ '' not found. Pushing '' @ apos
                  @ b @ apos @ '' as a new remote branch...'') ?s0"
  obtain r1 s1 where 1: "runCommandStdIO E (''git push origin '' @ b) ?ahead = (r1, s1)"
    by force
  obtain r2 s2 where 2: "runCommandStdIO E (''git push -u origin '' @ b) ?fresh = (r2, s2)"
    by force
  note t1 = runCommandStdIO_trace [OF 1] and t2 = runCommandStdIO_trace [OF 2]
  show ?thesis
    using 1 2 t1 t2
    by (cases r1; cases r2) (auto simp: displaySyncStatus_def console_def Let_def)
qed

lemma displaySyncStatus_commands:
  "sync g = ''ahead'' \<Longrightarrow>
     commands (since s (displaySyncStatus E g b operationType s)) = [''git push origin '' @ b]"
  "sync g = ''no_remote'' \<Longrightarrow>
     commands (since s (displaySyncStatus E g b operationType s)) = [''git push -u origin '' @ b]"
  using displaySyncStatus_effect [of E g b operationType s]
  by (auto simp: since_def)

lemma checkRemoteSync_eq:
  assumes "getCurrentGitBranch E s = (Inr b, s1)" "getGitStatus E b s1 = (g, s2)" "isRepo g"
  shows "checkRemoteSync E s = displaySyncStatus E g b ''CheckRemoteSync'' s2"
  using assms by (simp add: checkRemoteSync_def)

lemma opQuickBackup_eq:
  assumes "getCurrentGitBranch E s = (Inr b, s1)" "getGitStatus E b s1 = (g, s2)" "isRepo g"
    "projectName c \<noteq> []" "\<not> hasChanges g"
  shows "opQuickBackup E (Some c) s = displaySyncStatus E g b ''QuickBackup'' s2"
  using assms by (simp add: opQuickBackup_def)

lemma displaySyncStatus_world:
  "sync g = ''ahead'' \<Longrightarrow>
     world (displaySyncStatus E g b operationType s)
       = snd (execSync E (''git push origin '' @ b) (world s))"
  "sync g = ''no_remote'' \<Longrightarrow>
     world (displaySyncStatus E g b operationType s)
       = snd (execSync E (''git push -u origin '' @ b) (world s))"
  by (auto simp: displaySyncStatus_def console_def runCommandStdIO_def Let_def
           split: prod.splits sum.splits)

lemma sync_report_pushes_aux:
  "(sync g = ''ahead'' \<longrightarrow>
      commands (since s (displaySyncStatus E g b operationType s)) = [''git push origin '' @ b]
      \<and> world (displaySyncStatus E g b operationType s)
          = snd (execSync E (''git push origin '' @ b) (world s)))
   \<and> (sync g = ''no_remote'' \<longrightarrow>
      commands (since s (displaySyncStatus E g b operationType s))
        = [''git push -u origin '' @ b]
      \<and> world (displaySyncStatus E g b operationType s)
          = snd (execSync E (''git push -u origin '' @ b) (world s)))
   \<and> (getCurrentGitBranch E s = (Inr b, s1) \<and> getGitStatus E b s1 = (g, s2) \<and> isRepo g
        \<and> sync g \<in> {''ahead'', ''no_remote''} \<longrightarrow>
      commands (since s2 (checkRemoteSync E s))
        = [''git push '' @ (if sync g = ''ahead'' then [] else ''-u '') @ ''origin '' @ b]
      \<and> world (checkRemoteSync E s)
          = snd (execSync E (''git push '' @ (if sync g = ''ahead'' then [] else ''-u '')
                               @ ''origin '' @ b) (world s2))
      \<and> (projectName c \<noteq> [] \<and> \<not> hasChanges g \<longrightarrow>
          commands (since s2 (opQuickBackup E (Some c) s))
            = [''git push '' @ (if sync g = ''ahead'' then [] else ''-u '') @ ''origin '' @ b]
          \<and> world (opQuickBackup E (Some c) s)
              = snd (execSync E (''git push '' @ (if sync g = ''ahead'' then [] else ''-u '')
                                   @ ''origin '' @ b) (world s2))))"
  by (auto simp: checkRemoteSync_eq opQuickBackup_eq displaySyncStatus_commands
                 displaySyncStatus_world)

text \<open>
  C10. \<open>displaySyncStatus\<close> is not read-only. For every status whose sync field is \<open>ahead\<close>
  the one command it runs is \<open>git push origin <branch>\<close>, and the world it returns is the
  world that this command leaves; for every status whose sync field is \<open>no_remote\<close> the same
  holds of \<open>git push -u origin <branch>\<close>. So the check-remote-sync operation, once the
  status is computed, and the quick backup when the working tree has no changes, run the
  push and leave the world as the push leaves it.
\<close>

theorem sync_report_pushes:
  "(sync g = ''ahead'' \<longrightarrow>
      commands (since s (displaySyncStatus E g b operationType s)) = [''git push origin '' @ b]
      \<and> world (displaySyncStatus E g b operationType s)
          = snd (execSync E (''git push origin '' @ b) (world s)))
   \<and> (sync g = ''no_remote'' \<longrightarrow>
      commands (since s (displaySyncStatus E g b operationType s))
        = [''git push -u origin '' @ b]
      \<and> world (displaySyncStatus E g b operationType s)
          = snd (execSync E (''git push -u origin '' @ b) (world s)))
   \<and> (getCurrentGitBranch E s = (Inr b, s1) \<and> getGitStatus E b s1 = (g, s2) \<and> isRepo g
        \<and> sync g \<in> {''ahead'', ''no_remote''} \<longrightarrow>
      commands (since s2 (checkRemoteSync E s))
        = [''git push '' @ (if sync g = ''ahead'' then [] else ''-u '') @ ''origin '' @ b]
      \<and> world (checkRemoteSync E s)
          = snd (execSync E (''git push '' @ (if sync g = ''ahead'' then [] else ''-u '')
                               @ ''origin '' @ b) (world s2))
      \<and> (projectName c \<noteq> [] \<and> \<not> hasChanges g \<longrightarrow>
          commands (since s2 (opQuickBackup E (Some c) s))
            = [''git push '' @ (if sync g = ''ahead'' then [] else ''-u '') @ ''origin '' @ b]
          \<and> world (opQuickBackup E (Some c) s)
              = snd (execSync E (''git push '' @ (if sync g = ''ahead'' then [] else ''-u '')
                                   @ ''origin '' @ b) (world s2))))"
  by (rule sync_report_pushes_aux)

text \<open>
  A run on a world that records what origin receives: nothing was pushed before, and after
  the report of the check-remote-sync operation, or of the quick backup, origin has
  received the push of \<open>main\<close>.
\<close>

theorem sync_report_pushes_witness:
  "getCurrentGitBranch (pushing aheadScript) nothingPushed
     = (Inr ''main'', snd (getCurrentGitBranch (pushing aheadScript) nothingPushed))
   \<and> sync (fst (getGitStatus (pushing aheadScript) ''main''
                  (snd (getCurrentGitBranch (pushing aheadScript) nothingPushed)))) = ''ahead''
   \<and> world (snd (getGitStatus (pushing aheadScript) ''main''
                  (snd (getCurrentGitBranch (pushing aheadScript) nothingPushed)))) = []
   \<and> commands (since (snd (getGitStatus (pushing aheadScript) ''main''
                             (snd (getCurrentGitBranch (pushing aheadScript) nothingPushed))))
                 (checkRemoteSync (pushing aheadScript) nothingPushed))
       = [''git push origin main'']
   \<and> world (checkRemoteSync (pushing aheadScript) nothingPushed) = [''git push origin main'']
   \<and> commands (since (snd (getGitStatus (pushing aheadScript) ''main''
                             (snd (getCurrentGitBranch (pushing aheadScript) nothingPushed))))
                 (opQuickBackup (pushing aheadScript) (Some aliceConfig) nothingPushed))
       = [''git push origin main'']
   \<and> world (opQuickBackup (pushing aheadScript) (Some aliceConfig) nothingPushed)
       = [''git push origin main'']
   \<and> world (displaySyncStatus (pushing aheadScript)
               (fst (getGitStatus (pushing aheadScript) ''main''
                  (snd (getCurrentGitBranch (pushing aheadScript) nothingPushed))))
               ''main'' ''CheckRemoteSync'' nothingPushed)
       \<noteq> world nothingPushed"
proof -
  let ?E = "pushing aheadScript"
  let ?s1 = "snd (getCurrentGitBranch ?E nothingPushed)"
  let ?g = "fst (getGitStatus ?E ''main'' ?s1)"
  let ?s2 = "snd (getGitStatus ?E ''main'' ?s1)"
  have h1: "getCurrentGitBranch ?E nothingPushed = (Inr ''main'', ?s1)" by code_simp
  have h2: "getGitStatus ?E ''main'' ?s1 = (?g, ?s2)" by simp
  have h3: "isRepo ?g" by code_simp
  have h4: "sync ?g = ''ahead''" by code_simp
  have h5: "projectName aliceConfig \<noteq> []" by code_simp
  have h6: "\<not> hasChanges ?g" by code_simp
  have h7: "world ?s2 = []" by code_simp
  have h8: "snd (execSync ?E ''git push origin main'' []) = [''git push origin main'']"
    by code_simp
  have h9: "world nothingPushed = []" by (simp add: nothingPushed_def)
  show ?thesis
    using h1 h2 h3 h4 h5 h6 h7 h8 h9
      sync_report_pushes [of ?g nothingPushed ?E "''main''" "''CheckRemoteSync''" ?s1 ?s2
        aliceConfig]
    by simp
qed

section \<open>Commit with a message\<close>

lemma commit_declined_aux:
  assumes cfg: "projectName c \<noteq> []"
    and msg: "js_trim customMessage = []"
    and branch: "getCurrentGitBranch E s = (Inr b, s1)"
    and typed: "js_trim (question E ''Please enter your commit message: '') \<noteq> []"
    and status: "getGitStatus E b (snd (askQuestion E ''Please enter your commit message: '' s1))
                   = (g, s3)"
    and repo: "isRepo g" and clean: "\<not> hasChanges g"
    and decline: "\<not> js_startsWith (js_toLowerCase (js_trim (question E (emptyCommitPrompt b)))) ''y''"
  shows "(\<forall>cmd\<in>set (commands (since s (opCommitWithMessage E (Some c) customMessage s))).
            \<not> prefix ''git commit'' cmd)
       \<and> (\<exists>before after. since s (opCommitWithMessage E (Some c) customMessage s)
             = before @ [Ask (emptyCommitPrompt b) (js_trim (question E (emptyCommitPrompt b))),
                         Console (''CommitWithMessage: Sync status for branch '' @ apos @ b @ apos
                                    @ '' is '' @ sync g @ ''.'')] @ after)"
proof -
  let ?q = "''Please enter your commit message: ''"
  let ?a = "js_trim (question E (emptyCommitPrompt b))"
  let ?s2 = "snd (askQuestion E ?q s1)"
  let ?s4 = "s3\<lparr>trace := trace s3 @ [Ask (emptyCommitPrompt b) ?a]\<rparr>"
  from getCurrentGitBranch_effect [OF branch] obtain evs1 where
    e1: "trace s1 = trace s @ evs1"
       "set (commands evs1) \<subseteq> {''git rev-parse --abbrev-ref HEAD'', ''git branch --show-current''}"
    by blast
  from getGitStatus_effect [OF status] obtain evs3 where
    e3: "trace s3 = trace ?s2 @ evs3"
       "set (commands evs3)
          \<subseteq> {''git status --porcelain'', ''git remote update'', ''git rev-parse HEAD'',
              ''git ls-remote --heads origin '' @ b, ''git rev-parse origin/'' @ b,
              ''git merge-base HEAD origin/'' @ b}"
    by blast
  from displaySyncStatus_effect [of E g b "''CommitWithMessage''" ?s4] obtain evs5 where
    e5: "trace (displaySyncStatus E g b ''CommitWithMessage'' ?s4)
           = trace ?s4 @ Console (''CommitWithMessage: Sync status for branch '' @ apos @ b @ apos
                                    @ '' is '' @ sync g @ ''.'') # evs5"
       "set (commands evs5) \<subseteq> {''git push origin '' @ b, ''git push -u origin '' @ b}"
    by auto
  have run: "opCommitWithMessage E (Some c) customMessage s
               = displaySyncStatus E g b ''CommitWithMessage'' ?s4"
    using cfg msg branch typed status repo clean decline
    by (simp add: opCommitWithMessage_def askQuestion_eq js_trim_idem)
  have t4: "trace ?s4 = trace s @ evs1 @ [Ask ?q (js_trim (question E ?q))] @ evs3
                          @ [Ask (emptyCommitPrompt b) ?a]"
    by (simp add: e1 e3 askQuestion_eq)
  have tr: "since s (opCommitWithMessage E (Some c) customMessage s)
        = (evs1 @ [Ask ?q (js_trim (question E ?q))] @ evs3)
          @ [Ask (emptyCommitPrompt b) ?a,
             Console (''CommitWithMessage: Sync status for branch '' @ apos @ b @ apos
                        @ '' is '' @ sync g @ ''.'')] @ evs5"
    unfolding run by (rule since_append) (simp only: e5(1) t4, simp)
  have "\<forall>cmd\<in>set (commands (since s (opCommitWithMessage E (Some c) customMessage s))).
            \<not> prefix ''git commit'' cmd"
    unfolding tr using e1(2) e3(2) e5(2) by (auto simp: commands_append)
  moreover have "\<exists>before after. since s (opCommitWithMessage E (Some c) customMessage s)
             = before @ [Ask (emptyCommitPrompt b) ?a,
                         Console (''CommitWithMessage: Sync status for branch '' @ apos @ b @ apos
                                    @ '' is '' @ sync g @ ''.'')] @ after"
    using tr by blast
  ultimately show ?thesis by blast
qed

text \<open>
  C8. The operation is called with an empty message, the operator types one at the prompt,
  the working tree has no changes and the operator's answer to the empty-commit question
  does not start with y. Then no \<open>git commit\<close> is among the commands of the run, and the
  answer is followed at once by the sync report for the current branch.
\<close>

theorem commit_declined_reports_sync:
  assumes "projectName c \<noteq> []"
    and "js_trim customMessage = []"
    and "getCurrentGitBranch E s = (Inr b, s1)"
    and "js_trim (question E ''Please enter your commit message: '') \<noteq> []"
    and "getGitStatus E b (snd (askQuestion E ''Please enter your commit message: '' s1))
           = (g, s3)"
    and "isRepo g" and "\<not> hasChanges g"
    and "\<not> js_startsWith (js_toLowerCase (js_trim (question E (emptyCommitPrompt b)))) ''y''"
  shows "(\<forall>cmd\<in>set (commands (since s (opCommitWithMessage E (Some c) customMessage s))).
            \<not> prefix ''git commit'' cmd)
       \<and> (\<exists>before after. since s (opCommitWithMessage E (Some c) customMessage s)
             = before @ [Ask (emptyCommitPrompt b) (js_trim (question E (emptyCommitPrompt b))),
                         Console (''CommitWithMessage: Sync status for branch '' @ apos @ b @ apos
                                    @ '' is '' @ sync g @ ''.'')] @ after)"
  using assms by (rule commit_declined_aux)

theorem commit_declined_reports_sync_witness:
  "js_trim (question (scripted aheadScript True declineEmptyCommit)
              ''Please enter your commit message: '') = ''work in progress''
   \<and> \<not> hasChanges (fst (getGitStatus (scripted aheadScript True declineEmptyCommit) ''main''
        (snd (askQuestion (scripted aheadScript True declineEmptyCommit)
                ''Please enter your commit message: ''
                (snd (getCurrentGitBranch (scripted aheadScript True declineEmptyCommit) start))))))
   \<and> js_trim (question (scripted aheadScript True declineEmptyCommit) (emptyCommitPrompt ''main''))
       = ''n''
   \<and> list_all (\<lambda>cmd. \<not> prefix ''git commit'' cmd)
        (commands (since start
           (opCommitWithMessage (scripted aheadScript True declineEmptyCommit)
              (Some aliceConfig) [] start)))"
proof -
  let ?E = "scripted aheadScript True declineEmptyCommit"
  let ?s1 = "snd (getCurrentGitBranch ?E start)"
  let ?s2 = "snd (askQuestion ?E ''Please enter your commit message: '' ?s1)"
  let ?g = "fst (getGitStatus ?E ''main'' ?s2)"
  let ?s3 = "snd (getGitStatus ?E ''main'' ?s2)"
  have h1: "projectName aliceConfig \<noteq> []" by code_simp
  have h2: "js_trim [] = []" by (rule js_trim_Nil)
  have h3: "getCurrentGitBranch ?E start = (Inr ''main'', ?s1)" by code_simp
  have a4: "js_trim (question ?E ''Please enter your commit message: '') = ''work in progress''"
    by code_simp
  have h4: "js_trim (question ?E ''Please enter your commit message: '') \<noteq> []"
    unfolding a4 by simp
  have h5: "getGitStatus ?E ''main'' ?s2 = (?g, ?s3)" by simp
  have h6: "isRepo ?g" by code_simp
  have h7: "\<not> hasChanges ?g" by code_simp
  have a8: "js_trim (question ?E (emptyCommitPrompt ''main'')) = ''n''" by code_simp
  have h8: "\<not> js_startsWith (js_toLowerCase (js_trim (question ?E (emptyCommitPrompt ''main'')))) ''y''"
    by code_simp
  note t = commit_declined_reports_sync [OF h1 h2 h3 h4 h5 h6 h7 h8, THEN conjunct1]
  have c: "list_all (\<lambda>cmd. \<not> prefix ''git commit'' cmd)
        (commands (since start (opCommitWithMessage ?E (Some aliceConfig) [] start)))"
    using t by (simp only: list_all_iff)
  show ?thesis by (rule conjI [OF a4 conjI [OF h7 conjI [OF a8 c]]])
qed

section \<open>The author partition\<close>

lemma isCurrentUser_defined:
  "authorEmail k = Some e \<Longrightarrow>
   isCurrentUser u k = Inr (authorName k = Some u \<or> sublist u e)"
  by (auto simp: isCurrentUser_def js_includes_sublist)

lemma partitionCommits_Inr:
  "partitionCommits u ls cur old = Inr (cur', old') \<Longrightarrow>
   cur' = cur @ filter (\<lambda>k. isCurrentUser u k = Inr True) (map parseCommit ls)
   \<and> old' = old @ filter (\<lambda>k. isCurrentUser u k = Inr False) (map parseCommit ls)"
proof (induction ls arbitrary: cur old)
  case Nil
  then show ?case by simp
next
  case (Cons l ls)
  show ?case
  proof (cases "isCurrentUser u (parseCommit l)")
    case (Inl e)
    with Cons.prems show ?thesis by simp
  next
    case (Inr m)
    with Cons.prems Cons.IH [of "if m then cur @ [parseCommit l] else cur"
                                "if m then old else old @ [parseCommit l]"]
    show ?thesis by (cases m) simp_all
  qed
qed

lemma partitionCommits_total:
  "\<forall>l\<in>set ls. authorEmail (parseCommit l) \<noteq> None \<Longrightarrow>
   \<exists>cur' old'. partitionCommits u ls cur old = Inr (cur', old')"
proof (induction ls arbitrary: cur old)
  case Nil
  then show ?case by simp
next
  case (Cons l ls)
  then obtain e where e: "authorEmail (parseCommit l) = Some e" by auto
  show ?case using Cons e by (simp add: isCurrentUser_defined split: bool.splits)
qed

lemma partition_by_author_aux:
  assumes "\<forall>l\<in>set ls. authorEmail (parseCommit l) \<noteq> None"
  shows "partitionCommits u ls [] [] =
     Inr (filter (\<lambda>k. authorName k = Some u \<or> (\<exists>e. authorEmail k = Some e \<and> sublist u e))
            (map parseCommit ls),
          filter (\<lambda>k. \<not> (authorName k = Some u \<or> (\<exists>e. authorEmail k = Some e \<and> sublist u e)))
            (map parseCommit ls))"
proof -
  from partitionCommits_total [OF assms] obtain cur old where
    p: "partitionCommits u ls [] [] = Inr (cur, old)" by blast
  have eq: "\<And>k. k \<in> set (map parseCommit ls) \<Longrightarrow>
     isCurrentUser u k = Inr (authorName k = Some u \<or> (\<exists>e. authorEmail k = Some e \<and> sublist u e))"
    using assms by (auto simp: isCurrentUser_defined)
  have "cur = filter (\<lambda>k. authorName k = Some u \<or> (\<exists>e. authorEmail k = Some e \<and> sublist u e))
                (map parseCommit ls)"
    using partitionCommits_Inr [OF p] eq by (auto intro!: filter_cong)
  moreover have "old = filter (\<lambda>k. \<not> (authorName k = Some u
                                      \<or> (\<exists>e. authorEmail k = Some e \<and> sublist u e)))
                (map parseCommit ls)"
    using partitionCommits_Inr [OF p] eq by (auto intro!: filter_cong)
  ultimately show ?thesis using p by simp
qed

lemma parseCommit_email:
  "authorEmail (parseCommit l) \<noteq> None \<longleftrightarrow> 3 \<le> length (js_split (CHR ''|'') l)"
  by (auto simp: parseCommit_def nth_opt_def Let_def)

text \<open>
  C5. A log line with at least three fields parses to a record whose e-mail is defined; the
  format the script asks git for always has four. On such lines the partition succeeds; a
  record goes to the current-user list exactly when its author name equals the configured
  username or its author e-mail contains the username as a contiguous run of characters, and
  to the other list otherwise. String equality and containment compare characters, so both
  are case-sensitive.
\<close>

theorem partition_by_author:
  assumes "\<forall>l\<in>set ls. authorEmail (parseCommit l) \<noteq> None"
  shows "partitionCommits u ls [] [] =
     Inr (filter (\<lambda>k. authorName k = Some u \<or> (\<exists>e. authorEmail k = Some e \<and> sublist u e))
            (map parseCommit ls),
          filter (\<lambda>k. \<not> (authorName k = Some u \<or> (\<exists>e. authorEmail k = Some e \<and> sublist u e)))
            (map parseCommit ls))"
  using assms by (rule partition_by_author_aux)

theorem partition_by_author_witness:
  "list_all (\<lambda>l. authorEmail (parseCommit l) \<noteq> None) authorLines
   \<and> filter (\<lambda>k. authorName k = Some ''alice''
                  \<or> (\<exists>e. authorEmail k = Some e \<and> sublist ''alice'' e))
        (map parseCommit authorLines)
      = [\<lparr>hash = Some ''h1'', authorName = Some ''alice'', authorEmail = Some ''a@example.org'',
          subject = Some ''one''\<rparr>,
         \<lparr>hash = Some ''h2'', authorName = Some ''bob'',
          authorEmail = Some ''alice@users.noreply.github.com'', subject = Some ''two''\<rparr>]
   \<and> filter (\<lambda>k. \<not> (authorName k = Some ''alice''
                  \<or> (\<exists>e. authorEmail k = Some e \<and> sublist ''alice'' e)))
        (map parseCommit authorLines)
      = [\<lparr>hash = Some ''h3'', authorName = Some ''Alice'', authorEmail = Some ''bob@example.org'',
          subject = Some ''three''\<rparr>]"
proof -
  have h: "\<forall>l\<in>set authorLines. authorEmail (parseCommit l) \<noteq> None" by code_simp
  have run: "partitionCommits ''alice'' authorLines [] [] =
     Inr ([\<lparr>hash = Some ''h1'', authorName = Some ''alice'', authorEmail = Some ''a@example.org'',
            subject = Some ''one''\<rparr>,
           \<lparr>hash = Some ''h2'', authorName = Some ''bob'',
            authorEmail = Some ''alice@users.noreply.github.com'', subject = Some ''two''\<rparr>],
          [\<lparr>hash = Some ''h3'', authorName = Some ''Alice'', authorEmail = Some ''bob@example.org'',
            subject = Some ''three''\<rparr>])"
    by code_simp
  have h': "list_all (\<lambda>l. authorEmail (parseCommit l) \<noteq> None) authorLines"
    using h by (simp only: list_all_iff)
  from partition_by_author [OF h, of "''alice''"] run h' show ?thesis
    by (simp only: sum.inject prod.inject)
qed

section \<open>The git model: facts\<close>

lemma git_reads:
  "snd (git ''git rev-parse --abbrev-ref HEAD'' w) = w"
  "snd (git ''git branch --show-current'' w) = w"
  "snd (git logCommand w) = w"
  by (simp_all add: git_def fatal_def logCommand_def dquote_def)
































section \<open>Cancelling a history rewrite\<close>

lemma opCleanAllCommits_cancel:
  assumes decline: "js_trim (question E cleanAllPrompt) \<notin> {''y'', ''Y''}"
  shows "set (commands (since s (opCleanAllCommits E cfg s)))
           \<subseteq> {''git rev-parse --abbrev-ref HEAD'', ''git branch --show-current''}
         \<and> ((\<forall>c\<in>{''git rev-parse --abbrev-ref HEAD'', ''git branch --show-current''}.
                \<forall>w. snd (execSync E c w) = w)
              \<longrightarrow> world (opCleanAllCommits E cfg s) = world s)"
proof -
  obtain rb s1 where b: "getCurrentGitBranch E s = (rb, s1)" by force
  from getCurrentGitBranch_effect [OF b] obtain evs where
    evs: "trace s1 = trace s @ evs"
      "set (commands evs) \<subseteq> {''git rev-parse --abbrev-ref HEAD'', ''git branch --show-current''}"
      "(\<forall>c\<in>{''git rev-parse --abbrev-ref HEAD'', ''git branch --show-current''}.
          \<forall>w. snd (execSync E c w) = w) \<longrightarrow> world s1 = world s"
    by blast
  from decline have no: "js_toLowerCase (js_trim (question E cleanAllPrompt)) \<noteq> ''y''"
    by (simp add: toLowerCase_y)
  have "opCleanAllCommits E cfg s = s \<or> opCleanAllCommits E cfg s = s1
      \<or> opCleanAllCommits E cfg s
           = s1\<lparr>trace := trace s1 @ [Ask cleanAllPrompt (js_trim (question E cleanAllPrompt))]\<rparr>"
    using b no
    by (auto simp: opCleanAllCommits_def askQuestion_eq split: option.splits sum.splits)
  then show ?thesis using evs
    by (auto simp: since_def commands_append)
qed

lemma opCleanOldUserCommits_cancel:
  assumes decline: "js_trim (question E confirmCleanPrompt) \<notin> {''y'', ''Y''}"
  shows "set (commands (since s (opCleanOldUserCommits E cfg s)))
           \<subseteq> {''git rev-parse --abbrev-ref HEAD'', ''git branch --show-current'', logCommand}
         \<and> ((\<forall>c\<in>{''git rev-parse --abbrev-ref HEAD'', ''git branch --show-current'', logCommand}.
                \<forall>w. snd (execSync E c w) = w)
              \<longrightarrow> world (opCleanOldUserCommits E cfg s) = world s)"
proof -
  obtain rb s1 where b: "getCurrentGitBranch E s = (rb, s1)" by force
  from getCurrentGitBranch_effect [OF b] obtain evs where
    evs: "trace s1 = trace s @ evs"
      "set (commands evs) \<subseteq> {''git rev-parse --abbrev-ref HEAD'', ''git branch --show-current''}"
      "(\<forall>c\<in>{''git rev-parse --abbrev-ref HEAD'', ''git branch --show-current''}.
          \<forall>w. snd (execSync E c w) = w) \<longrightarrow> world s1 = world s"
    by blast
  obtain rl s2 where l: "runCommand E logCommand s1 = (rl, s2)" by force
  note tl = runCommand_trace [OF l] and wl = runCommand_world [OF l]
  from decline have no: "js_toLowerCase (js_trim (question E confirmCleanPrompt)) \<noteq> ''y''"
    by (simp add: toLowerCase_y)
  have "opCleanOldUserCommits E cfg s = s \<or> opCleanOldUserCommits E cfg s = s1
      \<or> opCleanOldUserCommits E cfg s = s2
      \<or> opCleanOldUserCommits E cfg s
           = s2\<lparr>trace := trace s2 @ [Ask confirmCleanPrompt (js_trim (question E confirmCleanPrompt))]\<rparr>"
    using b l no
    by (auto simp: opCleanOldUserCommits_def askQuestion_eq Let_def
             split: option.splits sum.splits bool.splits)
  then show ?thesis using evs tl wl
    by (auto simp: since_def commands_append)
qed

text \<open>
  C9. When the trimmed answer at the confirmation prompt of the clean-history operation is
  neither y nor Y, the only commands of the run are the ones that read the current branch
  and the log: no checkout, reset, branch deletion, commit or push. Where those reading
  commands leave the world as it is, the run leaves it as it is. The same holds for the
  clean-all operation, which reads the current branch only.
\<close>

theorem cancel_runs_no_changing_command:
  "(js_trim (question E confirmCleanPrompt) \<notin> {''y'', ''Y''} \<longrightarrow>
      set (commands (since s (opCleanOldUserCommits E cfg s)))
        \<subseteq> {''git rev-parse --abbrev-ref HEAD'', ''git branch --show-current'', logCommand}
      \<and> ((\<forall>c\<in>{''git rev-parse --abbrev-ref HEAD'', ''git branch --show-current'', logCommand}.
             \<forall>w. snd (execSync E c w) = w)
           \<longrightarrow> world (opCleanOldUserCommits E cfg s) = world s))
   \<and> (js_trim (question E cleanAllPrompt) \<notin> {''y'', ''Y''} \<longrightarrow>
      set (commands (since s (opCleanAllCommits E cfg s)))
        \<subseteq> {''git rev-parse --abbrev-ref HEAD'', ''git branch --show-current''}
      \<and> ((\<forall>c\<in>{''git rev-parse --abbrev-ref HEAD'', ''git branch --show-current''}.
             \<forall>w. snd (execSync E c w) = w)
           \<longrightarrow> world (opCleanAllCommits E cfg s) = world s))"
proof (rule conjI; rule impI)
  assume "js_trim (question E confirmCleanPrompt) \<notin> {''y'', ''Y''}"
  then show "set (commands (since s (opCleanOldUserCommits E cfg s)))
        \<subseteq> {''git rev-parse --abbrev-ref HEAD'', ''git branch --show-current'', logCommand}
      \<and> ((\<forall>c\<in>{''git rev-parse --abbrev-ref HEAD'', ''git branch --show-current'', logCommand}.
             \<forall>w. snd (execSync E c w) = w)
           \<longrightarrow> world (opCleanOldUserCommits E cfg s) = world s)"
    by (rule opCleanOldUserCommits_cancel)
next
  assume "js_trim (question E cleanAllPrompt) \<notin> {''y'', ''Y''}"
  then show "set (commands (since s (opCleanAllCommits E cfg s)))
        \<subseteq> {''git rev-parse --abbrev-ref HEAD'', ''git branch --show-current''}
      \<and> ((\<forall>c\<in>{''git rev-parse --abbrev-ref HEAD'', ''git branch --show-current''}.
             \<forall>w. snd (execSync E c w) = w)
           \<longrightarrow> world (opCleanAllCommits E cfg s) = world s)"
    by (rule opCleanAllCommits_cancel)
qed

theorem cancel_runs_no_changing_command_witness:
  "js_trim (question (gitEnv declineAll) confirmCleanPrompt) = ''n''
   \<and> js_trim (question (gitEnv declineAll) cleanAllPrompt) = ''n''
   \<and> commands (since mixedStart (opCleanOldUserCommits (gitEnv declineAll) (Some aliceConfig) mixedStart))
       = [''git rev-parse --abbrev-ref HEAD'', logCommand]
   \<and> world (opCleanOldUserCommits (gitEnv declineAll) (Some aliceConfig) mixedStart)
       = world mixedStart
   \<and> commands (since mixedStart (opCleanAllCommits (gitEnv declineAll) (Some aliceConfig) mixedStart))
       = [''git rev-parse --abbrev-ref HEAD'']
   \<and> world (opCleanAllCommits (gitEnv declineAll) (Some aliceConfig) mixedStart)
       = world mixedStart"
proof -
  let ?E = "gitEnv declineAll"
  have a1: "js_trim (question ?E confirmCleanPrompt) = ''n''" by code_simp
  have a2: "js_trim (question ?E cleanAllPrompt) = ''n''" by code_simp
  have h1: "js_trim (question ?E confirmCleanPrompt) \<notin> {''y'', ''Y''}" unfolding a1 by simp
  have h2: "js_trim (question ?E cleanAllPrompt) \<notin> {''y'', ''Y''}" unfolding a2 by simp
  have r1: "\<forall>c\<in>{''git rev-parse --abbrev-ref HEAD'', ''git branch --show-current'', logCommand}.
              \<forall>w. snd (execSync ?E c w) = w"
    by (simp add: gitEnv_def git_reads)
  have r2: "\<forall>c\<in>{''git rev-parse --abbrev-ref HEAD'', ''git branch --show-current''}.
              \<forall>w. snd (execSync ?E c w) = w"
    by (simp add: gitEnv_def git_reads)
  note t = cancel_runs_no_changing_command [of ?E mixedStart "Some aliceConfig"]
  have w1: "world (opCleanOldUserCommits ?E (Some aliceConfig) mixedStart) = world mixedStart"
    using t h1 r1 by blast
  have w2: "world (opCleanAllCommits ?E (Some aliceConfig) mixedStart) = world mixedStart"
    using t h2 r2 by blast
  have c1: "commands (since mixedStart (opCleanOldUserCommits ?E (Some aliceConfig) mixedStart))
       = [''git rev-parse --abbrev-ref HEAD'', logCommand]"
    by code_simp
  have c2: "commands (since mixedStart (opCleanAllCommits ?E (Some aliceConfig) mixedStart))
       = [''git rev-parse --abbrev-ref HEAD'']"
    by code_simp
  show ?thesis by (rule conjI [OF a1 conjI [OF a2 conjI [OF c1 conjI [OF w1 conjI [OF c2 w2]]]]])
qed

section \<open>Runs of the history rewrite\<close>











section \<open>Resetting to the oldest commit of the user\<close>













section \<open>A fresh branch when the user has no commit\<close>








section \<open>The \<open>.gitignore\<close> update\<close>

lemma marker_in_generated:
  "js_includes (''# Generated by '' @ TOOL_DIR @ newline @ toolGitignoreContent) toolGitignoreMarker"
  by (simp add: toolGitignoreContent_def toolGitignoreMarker_def TOOL_DIR_def newline_def)

lemma marker_in_append:
  assumes "\<not> js_includes c toolGitignoreMarker" "contentToAppend c \<noteq> []"
  shows "js_includes (c @ appendPrefix c (contentToAppend c) @ contentToAppend c) toolGitignoreMarker"
proof -
  from assms obtain rest where "contentToAppend c = newline @ toolGitignoreMarker @ rest"
    by (auto simp: contentToAppend_def split: if_splits)
  then have "c @ appendPrefix c (contentToAppend c) @ contentToAppend c
     = (c @ appendPrefix c (contentToAppend c) @ newline) @ toolGitignoreMarker @ rest"
    by simp
  then show ?thesis using includes_append by metis
qed

lemma updateProjectGitignore_idem:
  "updateProjectGitignore targetDir (updateProjectGitignore targetDir f)
     = updateProjectGitignore targetDir f"
proof -
  let ?p = "path_join targetDir ''.gitignore''"
  show ?thesis
  proof (cases "nodes f ?p")
    case None
    show ?thesis
    proof (cases "readOnly f")
      case True
      with None show ?thesis
        by (simp add: updateProjectGitignore_def existsSync_def writeFileSync_def)
    next
      case False
      with None have "updateProjectGitignore targetDir f =
         f\<lparr>nodes := (nodes f)(?p \<mapsto> File (''# Generated by '' @ TOOL_DIR @ newline
                                           @ toolGitignoreContent))\<rparr>"
        by (simp add: updateProjectGitignore_def existsSync_def writeFileSync_def)
      then show ?thesis using marker_in_generated
        by (simp add: updateProjectGitignore_def existsSync_def readFileSync_def)
    qed
  next
    case (Some n)
    show ?thesis
    proof (cases n)
      case Directory
      with Some show ?thesis
        by (simp add: updateProjectGitignore_def existsSync_def readFileSync_def)
    next
      case (File c)
      show ?thesis
      proof (cases "js_includes c toolGitignoreMarker \<or> contentToAppend c = [] \<or> readOnly f")
        case True
        then have "updateProjectGitignore targetDir f = f" using Some File
          by (auto simp: updateProjectGitignore_def existsSync_def readFileSync_def
                appendFileSync_def)
        then show ?thesis by simp
      next
        case False
        then have "updateProjectGitignore targetDir f =
          f\<lparr>nodes := (nodes f)(?p \<mapsto> File (c @ appendPrefix c (contentToAppend c)
                                            @ contentToAppend c))\<rparr>"
          using Some File
          by (simp add: updateProjectGitignore_def existsSync_def readFileSync_def
                appendFileSync_def)
        then show ?thesis using marker_in_append [of c] False
          by (simp add: updateProjectGitignore_def existsSync_def readFileSync_def)
      qed
    qed
  qed
qed

text \<open>
  C6. Updating \<open>.gitignore\<close> twice leaves the file system as updating it once does, whatever
  was at the path before: nothing, a file with or without the marker, or something that
  cannot be read or written.
\<close>

theorem updateProjectGitignore_idempotent:
  "updateProjectGitignore targetDir (updateProjectGitignore targetDir f)
     = updateProjectGitignore targetDir f"
  by (rule updateProjectGitignore_idem)

theorem updateProjectGitignore_idempotent_witness:
  "nodes (updateProjectGitignore ''proj'' (updateProjectGitignore ''proj'' projectFs))
     ''proj/.gitignore''
   = Some (File (''node_modules/'' @ newline @ newline
        @ ''# backupTool'' @ newline @ ''# backupTool rules'' @ newline
        @ ''# backupTool'' @ newline @ ''/backupTool/'' @ newline @ ''.env*'' @ newline
        @ ''*.key'' @ newline @ ''*.pem'' @ newline @ ''config.local.*'' @ newline))
   \<and> nodes (updateProjectGitignore ''proj'' (updateProjectGitignore ''proj'' emptyFs))
     ''proj/.gitignore''
   = Some (File (''# Generated by backupTool'' @ newline @ newline
        @ ''# backupTool'' @ newline @ ''/backupTool/'' @ newline @ ''.env*'' @ newline
        @ ''*.key'' @ newline @ ''*.pem'' @ newline @ ''config.local.*'' @ newline))"
proof -
  have once: "nodes (updateProjectGitignore ''proj'' projectFs) ''proj/.gitignore''
   = Some (File (''node_modules/'' @ newline @ newline
        @ ''# backupTool'' @ newline @ ''# backupTool rules'' @ newline
        @ ''# backupTool'' @ newline @ ''/backupTool/'' @ newline @ ''.env*'' @ newline
        @ ''*.key'' @ newline @ ''*.pem'' @ newline @ ''config.local.*'' @ newline))"
    by code_simp
  have fresh: "nodes (updateProjectGitignore ''proj'' emptyFs) ''proj/.gitignore''
   = Some (File (''# Generated by backupTool'' @ newline @ newline
        @ ''# backupTool'' @ newline @ ''/backupTool/'' @ newline @ ''.env*'' @ newline
        @ ''*.key'' @ newline @ ''*.pem'' @ newline @ ''config.local.*'' @ newline))"
    by code_simp
  show ?thesis
    using once fresh updateProjectGitignore_idempotent [of "''proj''" projectFs]
      updateProjectGitignore_idempotent [of "''proj''" emptyFs]
    by simp
qed

section \<open>JSON: the text of a config object is read back\<close>

lemma decodeEscape_append:
  "decodeEscape e = Some (d, length e) \<Longrightarrow> decodeEscape (e @ rest) = Some (d, length e)"
proof (cases e)
  case Nil
  assume "decodeEscape e = Some (d, length e)"
  with Nil show ?thesis by simp
next
  case (Cons x cs)
  assume a: "decodeEscape e = Some (d, length e)"
  show ?thesis
  proof (cases "x = CHR ''u''")
    case True
    with a Cons have "length cs = 4" by (auto split: if_splits)
    with a Cons True show ?thesis by (auto split: if_splits)
  next
    case False
    with a Cons have "cs = []" by auto
    with a Cons False show ?thesis by auto
  qed
qed

lemma escaped_chars:
  "list_all (\<lambda>c. escapeChar c \<noteq> [] \<and> hd (escapeChar c) = CHR 0x5C
                 \<and> decodeEscape (tl (escapeChar c)) = Some (c, length (tl (escapeChar c))))
     (CHR 0x22 # CHR 0x5C # controlChars)"
  by code_simp

lemma parseChars_escapeChar:
  "parseChars (escapeChar c @ rest) = map_option (\<lambda>(s, r). (c # s, r)) (parseChars rest)"
proof (cases "c \<in> set (CHR 0x22 # CHR 0x5C # controlChars)")
  case True
  with escaped_chars have e: "escapeChar c \<noteq> []" "hd (escapeChar c) = CHR 0x5C"
    "decodeEscape (tl (escapeChar c)) = Some (c, length (tl (escapeChar c)))"
    unfolding list_all_iff by blast+
  then obtain e where esc: "escapeChar c = CHR 0x5C # e" by (cases "escapeChar c") auto
  with e(3) have "decodeEscape e = Some (c, length e)" by simp
  from decodeEscape_append [OF this, of rest] show ?thesis
    by (simp add: esc)
next
  case False
  then have "escapeChar c = [c]" "c \<noteq> CHR 0x22" "c \<noteq> CHR 0x5C" "c \<notin> set controlChars"
    by (auto simp: escapeChar_def)
  then show ?thesis by simp
qed

lemma parseChars_escaped:
  "parseChars (concat (map escapeChar s) @ CHR 0x22 # rest) = Some (s, rest)"
  by (induction s) (simp_all add: parseChars_escapeChar)

lemma skipSpace_spaces:
  "\<not> isJsonSpace c \<Longrightarrow> skipSpace (spaces k @ c # rest) = c # rest"
  by (simp add: skipSpace_def spaces_def dropWhile_append3 isJsonSpace_def)

lemma skipSpace_newline_spaces:
  "\<not> isJsonSpace c \<Longrightarrow> skipSpace (newline @ spaces k @ c # rest) = c # rest"
  using skipSpace_spaces [of c k rest]
  by (simp add: skipSpace_def newline_def isJsonSpace_def)

lemma skipSpace_same: "\<not> isJsonSpace c \<Longrightarrow> skipSpace (c # rest) = c # rest"
  by (simp add: skipSpace_def)

lemma parseValue_string:
  "parseValue (Suc n) (quoteJSONString s @ rest) = Some (JString s, rest)"
  by (simp add: quoteJSONString_def dquote_def skipSpace_def isJsonSpace_def parseChars_escaped)

lemma digit_cases: "d < 10 \<Longrightarrow> d \<in> {0, 1, 2, 3, 4, 5, 6, 7, 8, 9::nat}"
  by auto

lemma digit_char:
  assumes "d < 10"
  shows "isDigit (''0123456789'' ! d)" "digitValue (''0123456789'' ! d) = d"
    "(''0123456789'' ! d = CHR ''0'') = (d = 0)"
  using digit_cases [OF assms]
  by (auto simp: isDigit_def digitValue_def hexValue_def)

lemma showNat_digits: "\<forall>c\<in>set (showNat n). isDigit c"
proof (induction n rule: showNat.induct)
  case (1 n)
  show ?case
  proof (cases "n < 10")
    case True
    then show ?thesis by (subst showNat.simps) (simp add: digit_char)
  next
    case False
    with 1 show ?thesis by (subst showNat.simps) (simp add: digit_char)
  qed
qed

lemma showNat_not_Nil: "showNat n \<noteq> []"
  by (subst showNat.simps) simp

lemma natOfDigits_snoc: "natOfDigits (ds @ [d]) = 10 * natOfDigits ds + digitValue d"
  by (simp add: natOfDigits_def)

lemma natOfDigits_showNat: "natOfDigits (showNat n) = n"
proof (induction n rule: showNat.induct)
  case (1 n)
  show ?case
  proof (cases "n < 10")
    case True
    then show ?thesis by (subst showNat.simps) (simp add: natOfDigits_def digit_char)
  next
    case False
    with 1 show ?thesis by (subst showNat.simps) (simp add: natOfDigits_snoc digit_char)
  qed
qed

lemma showNat_leading: "10 \<le> n \<Longrightarrow> hd (showNat n) \<noteq> CHR ''0''"
proof (induction n rule: showNat.induct)
  case (1 n)
  from 1(2) have big: "\<not> n < 10" by simp
  have q: "1 \<le> n div 10" using 1(2) by simp
  show ?case
  proof (cases "n div 10 < 10")
    case True
    have "showNat (n div 10) = [''0123456789'' ! (n div 10)]"
      using True by (subst showNat.simps) simp
    moreover have "''0123456789'' ! (n div 10) \<noteq> CHR ''0''"
      using digit_char(3) [OF True] q by simp
    ultimately show ?thesis using big by (subst showNat.simps) simp
  next
    case False
    then have "hd (showNat (n div 10)) \<noteq> CHR ''0''" using 1(1) [OF big] by simp
    then show ?thesis using big showNat_not_Nil [of "n div 10"]
      by (subst showNat.simps) simp
  qed
qed

lemma showNat_length: "n < 10 \<longleftrightarrow> length (showNat n) = 1"
proof
  assume "n < 10"
  then show "length (showNat n) = 1" by (subst showNat.simps) simp
next
  assume l: "length (showNat n) = 1"
  show "n < 10"
  proof (rule ccontr)
    assume "\<not> n < 10"
    then have "showNat n = showNat (n div 10) @ [''0123456789'' ! (n mod 10)]"
      by (subst showNat.simps) simp
    with l showNat_not_Nil [of "n div 10"] show False by simp
  qed
qed

lemma takeWhile_showNat:
  assumes "endsNumber rest"
  shows "takeWhile isDigit (showNat n @ rest) = showNat n"
    "dropWhile isDigit (showNat n @ rest) = rest"
proof -
  have r: "takeWhile isDigit rest = []" "dropWhile isDigit rest = rest"
    using assms by (cases rest; simp add: endsNumber_def)+
  show "takeWhile isDigit (showNat n @ rest) = showNat n"
    using showNat_digits [of n] r by (simp add: takeWhile_append2)
  show "dropWhile isDigit (showNat n @ rest) = rest"
    using showNat_digits [of n] r by (simp add: dropWhile_append2)
qed

lemma showNat_ok:
  "\<not> (1 < length (showNat n) \<and> hd (showNat n) = CHR ''0'')"
proof (cases "n < 10")
  case True
  then show ?thesis using showNat_length [of n] by simp
next
  case False
  then show ?thesis using showNat_leading [of n] by simp
qed

lemma showNat_no_minus: "\<not> prefix ''-'' (showNat n @ rest)"
proof -
  obtain c cs where c: "showNat n = c # cs" using showNat_not_Nil [of n] by (cases "showNat n") auto
  then have "isDigit c" using showNat_digits [of n] by simp
  then have "c \<noteq> CHR ''-''" by (auto simp: isDigit_def)
  then show ?thesis by (simp add: c)
qed

lemma parseNumber_showInt:
  assumes "endsNumber rest"
  shows "parseNumber (showInt i @ rest) = Some (JNumber i, rest)"
proof (cases "i < 0")
  case True
  have e: "rest \<noteq> [] \<Longrightarrow> hd rest \<notin> {CHR ''.'', CHR ''e'', CHR ''E''}"
    using assms by (auto simp: endsNumber_def)
  show ?thesis
    using True e showNat_ok [of "nat (- i)"] showNat_not_Nil [of "nat (- i)"]
    by (auto simp: parseNumber_def showInt_def takeWhile_showNat [OF assms] natOfDigits_showNat
          Let_def)
next
  case False
  have e: "rest \<noteq> [] \<Longrightarrow> hd rest \<notin> {CHR ''.'', CHR ''e'', CHR ''E''}"
    using assms by (auto simp: endsNumber_def)
  show ?thesis
    using False e showNat_ok [of "nat i"] showNat_not_Nil [of "nat i"]
      showNat_no_minus [of "nat i" rest]
    by (auto simp: parseNumber_def showInt_def takeWhile_showNat [OF assms] natOfDigits_showNat
          Let_def)
qed

lemma showInt_head:
  "\<exists>c cs. showInt i = c # cs \<and> (c = CHR ''-'' \<or> isDigit c)"
proof -
  obtain c cs where c: "showNat (nat \<bar>i\<bar>) = c # cs"
    using showNat_not_Nil [of "nat \<bar>i\<bar>"] by (cases "showNat (nat \<bar>i\<bar>)") auto
  then have "isDigit c" using showNat_digits [of "nat \<bar>i\<bar>"] by simp
  then show ?thesis using c by (cases "i < 0") (auto simp: showInt_def abs_if)
qed

lemma parseValue_number:
  assumes "endsNumber rest"
  shows "parseValue (Suc n) (showInt i @ rest) = Some (JNumber i, rest)"
proof -
  from showInt_head [of i] obtain c cs where
    c: "showInt i = c # cs" "c = CHR ''-'' \<or> isDigit c" by blast
  from c(2) have plain: "\<not> isJsonSpace c" "c \<noteq> CHR 0x22" "c \<noteq> CHR ''[''" "c \<noteq> CHR ''{''"
    "c \<noteq> CHR ''t''" "c \<noteq> CHR ''f''" "c \<noteq> CHR ''n''"
    by (auto simp: isDigit_def isJsonSpace_def)
  have "parseValue (Suc n) (c # cs @ rest) = parseNumber (c # cs @ rest)"
    using plain by (simp add: skipSpace_same)
  then show ?thesis using parseNumber_showInt [OF assms, of i] by (simp add: c)
qed

lemma stringifyElements_strings:
  "stringifyElements k (map JString xs) = map (\<lambda>s. spaces k @ quoteJSONString s) xs"
  by (induction xs) simp_all

lemma join_lines:
  "xs \<noteq> [] \<Longrightarrow>
   newline @ js_join ('','' @ newline) (map f xs) = js_join '','' (map (\<lambda>x. newline @ f x) xs)"
proof (induction xs rule: list_nonempty_induct)
  case (single x)
  show ?case by simp
next
  case (cons x xs)
  obtain y ys where xs: "xs = y # ys" using cons(1) by (cases xs) auto
  show ?case using cons(2) by (simp add: xs)
qed

lemma parseValue_skip: "skipSpace t = skipSpace t' \<Longrightarrow> parseValue n t = parseValue n t'"
  by (cases n) simp_all

lemma quote_head: "\<exists>cs. quoteJSONString s = CHR 0x22 # cs"
  by (simp add: quoteJSONString_def dquote_def)

lemma not_space: "\<not> isJsonSpace (CHR 0x22)" "\<not> isJsonSpace (CHR '','')" "\<not> isJsonSpace (CHR '']'')"
  "\<not> isJsonSpace (CHR ''}'')" "\<not> isJsonSpace (CHR '':'')"
  by (simp_all add: isJsonSpace_def)

lemma parseValue_string_line:
  "parseValue (Suc n) (newline @ spaces k @ quoteJSONString s @ rest) = Some (JString s, rest)"
proof -
  obtain cs where q: "quoteJSONString s = CHR 0x22 # cs" using quote_head by blast
  have "skipSpace (newline @ spaces k @ quoteJSONString s @ rest)
          = skipSpace (quoteJSONString s @ rest)"
    using skipSpace_newline_spaces [OF not_space(1), of k "cs @ rest"]
      skipSpace_same [OF not_space(1), of "cs @ rest"]
    by (simp add: q)
  from parseValue_skip [OF this, of "Suc n"] show ?thesis
    by (simp only: parseValue_string)
qed

lemma parseElements_strings:
  "xs \<noteq> [] \<Longrightarrow> length xs < n \<Longrightarrow>
   parseElements n
     (js_join '','' (map (\<lambda>s. newline @ spaces k @ quoteJSONString s) xs)
        @ newline @ spaces k' @ '']'' @ rest)
     = Some (map JString xs, rest)"
proof (induction xs arbitrary: n rule: list_nonempty_induct)
  case (single x)
  then obtain m where n: "n = Suc (Suc m)" by (cases n; cases "n - 1") auto
  have v: "parseValue (Suc m) (newline @ spaces k @ quoteJSONString x
             @ newline @ spaces k' @ '']'' @ rest)
           = Some (JString x, newline @ spaces k' @ '']'' @ rest)"
    by (rule parseValue_string_line)
  have s: "skipSpace (newline @ spaces k' @ '']'' @ rest) = CHR '']'' # rest"
    using skipSpace_newline_spaces [OF not_space(3), of k' rest] by simp
  show ?case unfolding n using v s by simp
next
  case (cons x xs)
  then obtain m where n: "n = Suc (Suc m)" by (cases n; cases "n - 1") auto
  obtain y ys where xs: "xs = y # ys" using cons(1) by (cases xs) auto
  let ?more = "js_join '','' (map (\<lambda>s. newline @ spaces k @ quoteJSONString s) xs)
                 @ newline @ spaces k' @ '']'' @ rest"
  have t: "js_join '','' (map (\<lambda>s. newline @ spaces k @ quoteJSONString s) (x # xs))
             @ newline @ spaces k' @ '']'' @ rest
           = newline @ spaces k @ quoteJSONString x @ '','' @ ?more"
    by (simp add: xs)
  have v: "parseValue (Suc m) (newline @ spaces k @ quoteJSONString x @ '','' @ ?more)
           = Some (JString x, '','' @ ?more)"
    by (rule parseValue_string_line)
  have r: "parseElements (Suc m) ?more = Some (map JString xs, rest)"
    using cons(2) [of "Suc m"] cons(3) n by simp
  show ?case unfolding n t using v r by (simp add: skipSpace_same not_space)
qed

lemma parseValue_strings:
  assumes "length xs + 1 < n"
  shows "parseValue n (stringify k (JArray (map JString xs)) @ rest)
           = Some (JArray (map JString xs), rest)"
proof -
  from assms obtain m where n: "n = Suc m" "length xs < m" by (cases n) auto
  show ?thesis
  proof (cases "xs = []")
    case True
    then show ?thesis unfolding n by (simp add: skipSpace_same isJsonSpace_def)
  next
    case False
    let ?body = "js_join '','' (map (\<lambda>s. newline @ spaces (k + 2) @ quoteJSONString s) xs)
                   @ newline @ spaces k @ '']'' @ rest"
    have t: "stringify k (JArray (map JString xs)) @ rest = CHR ''['' # ?body"
      using False join_lines [OF False, of "\<lambda>s. spaces (k + 2) @ quoteJSONString s"]
      by (simp add: stringifyElements_strings)
    obtain x xs' where xs: "xs = x # xs'" using False by (cases xs) auto
    obtain cs where q: "quoteJSONString x = CHR 0x22 # cs" using quote_head by blast
    have "?body = newline @ spaces (k + 2) @ CHR 0x22 #
              (cs @ (if xs' = [] then [] else '','' @ js_join '',''
                       (map (\<lambda>s. newline @ spaces (k + 2) @ quoteJSONString s) xs'))
                 @ newline @ spaces k @ '']'' @ rest)"
      by (cases xs') (simp_all add: xs q)
    then have sk: "\<not> prefix '']'' (skipSpace ?body)"
      using skipSpace_newline_spaces [OF not_space(1), of "k + 2"] by simp
    have e: "parseElements m ?body = Some (map JString xs, rest)"
      using parseElements_strings [OF False n(2)] by simp
    show ?thesis
      unfolding n t using sk e by (simp add: skipSpace_same isJsonSpace_def)
  qed
qed

lemma parseValue_space: "parseValue n ('' '' @ t) = parseValue n t"
  by (rule parseValue_skip) (simp add: skipSpace_def isJsonSpace_def)

lemma parseMembers_key:
  "parseMembers (Suc n) (newline @ spaces k @ quoteJSONString key @ '': '' @ t) =
     (case parseValue n t of
        None \<Rightarrow> None
      | Some (v, rest) \<Rightarrow>
          (case skipSpace rest of
             [] \<Rightarrow> None
           | c # rest' \<Rightarrow>
               if c = CHR '','' then
                 map_option (\<lambda>(ms, rest''). ((key, v) # ms, rest'')) (parseMembers n rest')
               else if c = CHR ''}'' then Some ([(key, v)], rest')
               else None))"
proof -
  let ?body = "concat (map escapeChar key)"
  have sk: "skipSpace (newline @ spaces k @ quoteJSONString key @ '': '' @ t)
              = CHR 0x22 # ?body @ CHR 0x22 # '': '' @ t"
    using skipSpace_newline_spaces [OF not_space(1), of k "?body @ CHR 0x22 # '': '' @ t"]
    by (simp add: quoteJSONString_def dquote_def)
  have pc: "parseChars (?body @ CHR 0x22 # '': '' @ t) = Some (key, '': '' @ t)"
    by (rule parseChars_escaped)
  have colon: "skipSpace ('': '' @ t) = CHR '':'' # '' '' @ t"
    using skipSpace_same [OF not_space(5)] by simp
  show ?thesis
    by (simp only: parseMembers.simps sk pc colon list.case if_True if_False not_False_eq_True
          option.case prod.case parseValue_space refl simp_thms)
qed

lemma parseMembers_more:
  assumes "parseValue n (vtext @ '','' @ others) = Some (v, '','' @ others)"
    and "parseMembers n others = Some (ms, rest)"
  shows "parseMembers (Suc n)
           (newline @ spaces k @ quoteJSONString key @ '': '' @ vtext @ '','' @ others)
         = Some ((key, v) # ms, rest)"
  unfolding parseMembers_key using assms by (simp add: skipSpace_same not_space)

lemma parseMembers_last:
  assumes "parseValue n (vtext @ newline @ spaces k' @ ''}'' @ rest)
             = Some (v, newline @ spaces k' @ ''}'' @ rest)"
  shows "parseMembers (Suc n)
           (newline @ spaces k @ quoteJSONString key @ '': '' @ vtext
              @ newline @ spaces k' @ ''}'' @ rest)
         = Some ([(key, v)], rest)"
proof -
  have "skipSpace (newline @ spaces k' @ ''}'' @ rest) = CHR ''}'' # rest"
    using skipSpace_newline_spaces [OF not_space(4), of k' rest] by simp
  then show ?thesis
    unfolding parseMembers_key using assms by simp
qed

lemma spaces_0: "spaces 0 = []"
  by (simp add: spaces_def)

lemma endsNumber_comma: "endsNumber ('','' @ t)"
  by (simp add: endsNumber_def isDigit_def)

lemma length_js_join_elements:
  "length xs \<le> length (js_join sep (map (\<lambda>s. spaces k @ quoteJSONString s) xs))"
proof (induction xs)
  case Nil
  show ?case by simp
next
  case (Cons x xs)
  have q: "1 \<le> length (quoteJSONString x)" by (simp add: quoteJSONString_def dquote_def)
  show ?case
  proof (cases xs)
    case Nil
    then show ?thesis using q by simp
  next
    case (Cons y ys)
    then show ?thesis using Cons.IH q by simp
  qed
qed

lemma config_parse:
  assumes a: "1 \<le> a" and xs: "length (autoIgnoreFiles c) \<le> a"
  shows "parseValue (a + 8) (stringify 0 (configObject c)) = Some (configObject c, [])"
proof -
  let ?t7 = "newline @ spaces 2 @ quoteJSONString ''version'' @ '': ''
               @ quoteJSONString (version c) @ newline @ spaces 0 @ ''}'' @ []"
  let ?t6 = "newline @ spaces 2 @ quoteJSONString ''createdAt'' @ '': ''
               @ quoteJSONString (createdAt c) @ '','' @ ?t7"
  let ?t5 = "newline @ spaces 2 @ quoteJSONString ''maxBackupAttempts'' @ '': ''
               @ showInt (maxBackupAttempts c) @ '','' @ ?t6"
  let ?t4 = "newline @ spaces 2 @ quoteJSONString ''autoIgnoreFiles'' @ '': ''
               @ stringify 2 (JArray (map JString (autoIgnoreFiles c))) @ '','' @ ?t5"
  let ?t3 = "newline @ spaces 2 @ quoteJSONString ''backupBranch'' @ '': ''
               @ quoteJSONString (backupBranch c) @ '','' @ ?t4"
  let ?t2 = "newline @ spaces 2 @ quoteJSONString ''githubUsername'' @ '': ''
               @ quoteJSONString (githubUsername c) @ '','' @ ?t3"
  let ?t1 = "newline @ spaces 2 @ quoteJSONString ''projectName'' @ '': ''
               @ quoteJSONString (projectName c) @ '','' @ ?t2"
  from a obtain a' where a': "a = Suc a'" by (cases a) auto
  have p7: "parseMembers (Suc a) ?t7 = Some ([(''version'', JString (version c))], [])"
    unfolding a' by (rule parseMembers_last) (rule parseValue_string)
  have p6: "parseMembers (Suc (Suc a)) ?t6
      = Some ([(''createdAt'', JString (createdAt c)), (''version'', JString (version c))], [])"
    unfolding a' by (rule parseMembers_more [OF parseValue_string p7 [unfolded a']])
  have p5: "parseMembers (Suc (Suc (Suc a))) ?t5
      = Some ([(''maxBackupAttempts'', JNumber (maxBackupAttempts c)),
               (''createdAt'', JString (createdAt c)), (''version'', JString (version c))], [])"
    by (rule parseMembers_more [OF parseValue_number [OF endsNumber_comma] p6])
  have fuel: "length (autoIgnoreFiles c) + 1 < Suc (Suc (Suc a))" using xs by simp
  have p4: "parseMembers (Suc (Suc (Suc (Suc a)))) ?t4
      = Some ([(''autoIgnoreFiles'', JArray (map JString (autoIgnoreFiles c))),
               (''maxBackupAttempts'', JNumber (maxBackupAttempts c)),
               (''createdAt'', JString (createdAt c)), (''version'', JString (version c))], [])"
    by (rule parseMembers_more [OF parseValue_strings [OF fuel] p5])
  have p3: "parseMembers (Suc (Suc (Suc (Suc (Suc a))))) ?t3
      = Some ([(''backupBranch'', JString (backupBranch c)),
               (''autoIgnoreFiles'', JArray (map JString (autoIgnoreFiles c))),
               (''maxBackupAttempts'', JNumber (maxBackupAttempts c)),
               (''createdAt'', JString (createdAt c)), (''version'', JString (version c))], [])"
    by (rule parseMembers_more [OF parseValue_string p4])
  have p2: "parseMembers (Suc (Suc (Suc (Suc (Suc (Suc a)))))) ?t2
      = Some ([(''githubUsername'', JString (githubUsername c)),
               (''backupBranch'', JString (backupBranch c)),
               (''autoIgnoreFiles'', JArray (map JString (autoIgnoreFiles c))),
               (''maxBackupAttempts'', JNumber (maxBackupAttempts c)),
               (''createdAt'', JString (createdAt c)), (''version'', JString (version c))], [])"
    by (rule parseMembers_more [OF parseValue_string p3])
  have p1: "parseMembers (Suc (Suc (Suc (Suc (Suc (Suc (Suc a))))))) ?t1
      = Some ([(''projectName'', JString (projectName c)),
               (''githubUsername'', JString (githubUsername c)),
               (''backupBranch'', JString (backupBranch c)),
               (''autoIgnoreFiles'', JArray (map JString (autoIgnoreFiles c))),
               (''maxBackupAttempts'', JNumber (maxBackupAttempts c)),
               (''createdAt'', JString (createdAt c)), (''version'', JString (version c))], [])"
    by (rule parseMembers_more [OF parseValue_string p2])
  have t: "stringify 0 (configObject c) = CHR ''{'' # ?t1"
    by (simp add: configObject_def spaces_0 eval_nat_numeral)
  obtain cs where q: "quoteJSONString ''projectName'' = CHR 0x22 # cs"
    using quote_head by blast
  have sk: "\<not> prefix ''}'' (skipSpace ?t1)"
    using skipSpace_newline_spaces [OF not_space(1), of 2] by (simp add: q)
  have n: "a + 8 = Suc (Suc (Suc (Suc (Suc (Suc (Suc (Suc a)))))))" by simp
  have obj: "JObject (fold (\<lambda>(k, v). AList.update k v)
               [(''projectName'', JString (projectName c)),
                (''githubUsername'', JString (githubUsername c)),
                (''backupBranch'', JString (backupBranch c)),
                (''autoIgnoreFiles'', JArray (map JString (autoIgnoreFiles c))),
                (''maxBackupAttempts'', JNumber (maxBackupAttempts c)),
                (''createdAt'', JString (createdAt c)), (''version'', JString (version c))] [])
             = configObject c"
    by (simp add: configObject_def)
  have "parseValue (Suc (Suc (Suc (Suc (Suc (Suc (Suc (Suc a)))))))) (CHR ''{'' # ?t1)
          = Some (configObject c, [])"
    using sk obj
    by (simp only: parseValue.simps skipSpace_same [of "CHR ''{''", simplified isJsonSpace_def, simplified]
          list.case p1) (simp add: obj)
  then show ?thesis unfolding n t .
qed

lemma length_spaces: "length (spaces k) = k"
  by (simp add: spaces_def)

lemma length_strings_text:
  "length xs \<le> length (stringify k (JArray (map JString xs)))"
  using length_js_join_elements [of xs "'','' @ newline" "k + 2"]
  by (simp add: stringifyElements_strings)

lemma length_config_text:
  "length (autoIgnoreFiles c) + 9 \<le> length (stringify 0 (configObject c))"
proof -
  have "stringify 0 (configObject c) =
      ''{'' @ newline @ spaces 2 @ quoteJSONString ''projectName'' @ '': ''
        @ quoteJSONString (projectName c) @ '','' @ newline @ spaces 2
        @ quoteJSONString ''githubUsername'' @ '': '' @ quoteJSONString (githubUsername c)
        @ '','' @ newline @ spaces 2 @ quoteJSONString ''backupBranch'' @ '': ''
        @ quoteJSONString (backupBranch c) @ '','' @ newline @ spaces 2
        @ quoteJSONString ''autoIgnoreFiles'' @ '': ''
        @ stringify 2 (JArray (map JString (autoIgnoreFiles c))) @ '','' @ newline @ spaces 2
        @ quoteJSONString ''maxBackupAttempts'' @ '': '' @ showInt (maxBackupAttempts c)
        @ '','' @ newline @ spaces 2 @ quoteJSONString ''createdAt'' @ '': ''
        @ quoteJSONString (createdAt c) @ '','' @ newline @ spaces 2
        @ quoteJSONString ''version'' @ '': '' @ quoteJSONString (version c)
        @ newline @ ''}''"
    by (simp add: configObject_def spaces_0 eval_nat_numeral)
  then show ?thesis
    using length_strings_text [of "autoIgnoreFiles c" 2]
    by (simp only: length_append length_spaces list.size newline_def)
qed

lemma JSON_parse_config: "JSON_parse (stringify 0 (configObject c)) = Inr (configObject c)"
proof -
  let ?text = "stringify 0 (configObject c)"
  define a where "a = length ?text - 8"
  have a: "length ?text = a + 8" "1 \<le> a" "length (autoIgnoreFiles c) \<le> a"
    using length_config_text [of c] by (simp_all add: a_def)
  show ?thesis
    unfolding JSON_parse_def a(1) config_parse [OF a(2,3)]
    by (simp add: skipSpace_def)
qed

section \<open>The config store: facts\<close>

lemma config_roundtrip_aux:
  assumes "updateConfig configFilePath (configObject c) f = (True, f')"
  shows "readConfig configFilePath f' = Some (configObject c)"
proof -
  from assms obtain p where p: "configFilePath = Some p" "p \<noteq> []"
    and w: "writeFileSync f p (stringify 0 (configObject c)) = Inr f'"
    by (auto simp: updateConfig_def JSON_stringify_def
             split: option.splits if_splits sum.splits)
  from w have "nodes f' p = Some (File (stringify 0 (configObject c)))"
    by (auto simp: writeFileSync_def split: if_splits option.splits node.splits)
  moreover have "configObject c \<noteq> JNull" by (simp add: configObject_def)
  ultimately show ?thesis
    by (simp add: readConfig_def p existsSync_def readFileSync_def JSON_parse_config)
qed

text \<open>
  C7. A config object has the seven fields: five strings, a list of strings and the number
  of attempts, an integer that JavaScript represents exactly. When \<open>updateConfig\<close> reports
  that it has written the object, \<open>readConfig\<close> on the file system it leaves returns an
  object with the same members in the same order: the text that \<open>JSON.stringify\<close> prints
  for the object is parsed back to it.
\<close>

theorem config_roundtrip:
  assumes "safeInteger (maxBackupAttempts c)"
    and "updateConfig configFilePath (configObject c) f = (True, f')"
  shows "readConfig configFilePath f' = Some (configObject c)"
  using assms(2) by (rule config_roundtrip_aux)

theorem config_roundtrip_witness:
  "safeInteger (maxBackupAttempts aliceConfig)
   \<and> fst (updateConfig (Some ''backupTool/config.json'') (configObject aliceConfig) emptyFs)
   \<and> readFileSync
         (snd (updateConfig (Some ''backupTool/config.json'') (configObject aliceConfig) emptyFs))
         ''backupTool/config.json''
       = Inr (''{'' @ newline
              @ ''  '' @ dquote @ ''projectName'' @ dquote @ '': '' @ dquote @ ''demo'' @ dquote
              @ '','' @ newline
              @ ''  '' @ dquote @ ''githubUsername'' @ dquote @ '': '' @ dquote @ ''alice''
              @ dquote @ '','' @ newline
              @ ''  '' @ dquote @ ''backupBranch'' @ dquote @ '': '' @ dquote @ ''main'' @ dquote
              @ '','' @ newline
              @ ''  '' @ dquote @ ''autoIgnoreFiles'' @ dquote @ '': ['' @ newline
              @ ''    '' @ dquote @ ''.env*'' @ dquote @ '','' @ newline
              @ ''    '' @ dquote @ ''*.log'' @ dquote @ newline
              @ ''  ],'' @ newline
              @ ''  '' @ dquote @ ''maxBackupAttempts'' @ dquote @ '': 5,'' @ newline
              @ ''  '' @ dquote @ ''createdAt'' @ dquote @ '': '' @ dquote
              @ ''2025-01-01 00:00:00'' @ dquote @ '','' @ newline
              @ ''  '' @ dquote @ ''version'' @ dquote @ '': '' @ dquote
              @ ''2.7-nodejs-console-quieter'' @ dquote @ newline
              @ ''}'')
   \<and> readConfig (Some ''backupTool/config.json'')
         (snd (updateConfig (Some ''backupTool/config.json'') (configObject aliceConfig) emptyFs))
       = Some (configObject aliceConfig)"
proof -
  let ?p = "Some ''backupTool/config.json''"
  let ?u = "updateConfig ?p (configObject aliceConfig) emptyFs"
  have h1: "safeInteger (maxBackupAttempts aliceConfig)" by code_simp
  have ok: "fst ?u" by code_simp
  have h2: "?u = (True, snd ?u)" using ok by (simp add: prod_eq_iff)
  have written: "readFileSync (snd ?u) ''backupTool/config.json''
       = Inr (''{'' @ newline
              @ ''  '' @ dquote @ ''projectName'' @ dquote @ '': '' @ dquote @ ''demo'' @ dquote
              @ '','' @ newline
              @ ''  '' @ dquote @ ''githubUsername'' @ dquote @ '': '' @ dquote @ ''alice''
              @ dquote @ '','' @ newline
              @ ''  '' @ dquote @ ''backupBranch'' @ dquote @ '': '' @ dquote @ ''main'' @ dquote
              @ '','' @ newline
              @ ''  '' @ dquote @ ''autoIgnoreFiles'' @ dquote @ '': ['' @ newline
              @ ''    '' @ dquote @ ''.env*'' @ dquote @ '','' @ newline
              @ ''    '' @ dquote @ ''*.log'' @ dquote @ newline
              @ ''  ],'' @ newline
              @ ''  '' @ dquote @ ''maxBackupAttempts'' @ dquote @ '': 5,'' @ newline
              @ ''  '' @ dquote @ ''createdAt'' @ dquote @ '': '' @ dquote
              @ ''2025-01-01 00:00:00'' @ dquote @ '','' @ newline
              @ ''  '' @ dquote @ ''version'' @ dquote @ '': '' @ dquote
              @ ''2.7-nodejs-console-quieter'' @ dquote @ newline
              @ ''}'')"
    by code_simp
  note t = config_roundtrip [OF h1 h2]
  show ?thesis by (rule conjI [OF h1 conjI [OF ok conjI [OF written t]]])
qed

end
